theory Spec2Isabelle
  imports Main "HOL-Library.Word" "HOL-Library.Signed_Division"
begin

unbundle bit_operations_syntax

section \<open>The keypad calculator of Project 3: common data\<close>

text \<open>
  Two firmware variants share the calculator logic:
  \<^item> Part 1, \<^verbatim>\<open>calculatorLED.c\<close>: the result is shown in binary on eight LEDs (PORTD);
  \<^item> Part 2, \<^verbatim>\<open>calculatorSevenSeg.c\<close>: the result is shown on two multiplexed
    7-segment digits (segments on PORTD, digit select on PORTA).
  Definitions of Part 1 carry the prefix \<open>led_\<close>, those of Part 2 the prefix \<open>seg_\<close>;
  apart from the prefix every definition keeps the name of the C function it embeds.

  The target is a PIC18 compiled with XC8: \<^verbatim>\<open>int\<close> has 16 bits and
  \<^verbatim>\<open>unsigned char\<close> 8 bits. An \<^verbatim>\<open>unsigned char\<close> is an \<open>8 word\<close>. An
  \<^verbatim>\<open>int\<close> is an \<open>int\<close> of HOL, and every arithmetic result is passed through
  \<open>int16\<close>, the two's complement wrap-around to 16 bits.
\<close>

type_synonym byte = "8 word"

definition int16 :: "int \<Rightarrow> int" where
  "int16 x = (x + 32768) mod 65536 - 32768"

text \<open>\<^verbatim>\<open>#define MAX_INPUT 0x63\<close>, \<^verbatim>\<open>#define MIN_INPUT 0x00\<close> (both files).\<close>

definition MAX_INPUT :: int where
  "MAX_INPUT = 0x63"

definition MIN_INPUT :: int where
  "MIN_INPUT = 0x00"

text \<open>
  The output latches are write-only for the calculator: a write is recorded as an event
  appended to the trace \<open>out\<close> of the state. Delays are not recorded.
\<close>

datatype event = LATA byte | LATD byte

section \<open>Part 2: the segment patterns\<close>

definition SEG_A :: byte where "SEG_A = push_bit 6 1"
definition SEG_B :: byte where "SEG_B = push_bit 5 1"
definition SEG_C :: byte where "SEG_C = push_bit 4 1"
definition SEG_D :: byte where "SEG_D = push_bit 3 1"
definition SEG_E :: byte where "SEG_E = push_bit 2 1"
definition SEG_F :: byte where "SEG_F = push_bit 1 1"
definition SEG_G :: byte where "SEG_G = push_bit 0 1"
definition SEG_DP :: byte where "SEG_DP = push_bit 7 1"

definition TENS_DIGIT_PIN :: nat where "TENS_DIGIT_PIN = 0"
definition UNITS_DIGIT_PIN :: nat where "UNITS_DIGIT_PIN = 1"

definition DISPLAY_RESET :: int where "DISPLAY_RESET = 0"
definition DISPLAY_NUM1 :: int where "DISPLAY_NUM1 = 1"
definition DISPLAY_OPERATOR :: int where "DISPLAY_OPERATOR = 2"
definition DISPLAY_NUM2 :: int where "DISPLAY_NUM2 = 3"
definition DISPLAY_RESULT :: int where "DISPLAY_RESULT = 4"

definition digitPatterns :: "byte list" where
  "digitPatterns =
    [SEG_A OR SEG_B OR SEG_C OR SEG_D OR SEG_E OR SEG_F,
     SEG_B OR SEG_C,
     SEG_A OR SEG_B OR SEG_G OR SEG_E OR SEG_D,
     SEG_A OR SEG_B OR SEG_C OR SEG_D OR SEG_G,
     SEG_F OR SEG_G OR SEG_B OR SEG_C,
     SEG_A OR SEG_F OR SEG_G OR SEG_C OR SEG_D,
     SEG_A OR SEG_F OR SEG_G OR SEG_C OR SEG_D OR SEG_E,
     SEG_A OR SEG_B OR SEG_C,
     SEG_A OR SEG_B OR SEG_C OR SEG_D OR SEG_E OR SEG_F OR SEG_G,
     SEG_A OR SEG_B OR SEG_C OR SEG_D OR SEG_F OR SEG_G,
     SEG_A OR SEG_D OR SEG_G,
     0]"

definition operatorPatterns :: "byte list" where
  "operatorPatterns =
    [SEG_F OR SEG_E OR SEG_A OR SEG_B OR SEG_C,
     SEG_F OR SEG_E OR SEG_G OR SEG_C OR SEG_D,
     SEG_A OR SEG_F OR SEG_E OR SEG_D,
     SEG_B OR SEG_C OR SEG_D OR SEG_E OR SEG_G]"

definition PATTERN_E :: byte where
  "PATTERN_E = SEG_A OR SEG_F OR SEG_G OR SEG_E OR SEG_D"

definition PATTERN_MINUS :: byte where
  "PATTERN_MINUS = SEG_G"

definition PATTERN_BLANK :: byte where
  "PATTERN_BLANK = 0"

text \<open>
  Reading a C array outside its bounds is undefined behaviour: \<open>array_read\<close> is
  \<open>None\<close> there.
\<close>

definition array_read :: "'a list \<Rightarrow> int \<Rightarrow> 'a option" where
  "array_read xs i = (if 0 \<le> i \<and> i < int (length xs) then Some (xs ! nat i) else None)"

text \<open>\<^verbatim>\<open>unsigned char encodeDigit(int digit)\<close>, calculatorSevenSeg.c lines 153-163.\<close>

definition encodeDigit :: "int \<Rightarrow> byte option" where
  "encodeDigit digit =
    (if 0xA \<le> digit \<and> digit \<le> 0xD then array_read operatorPatterns (int16 (digit - 0xA))
     else if 0 \<le> digit \<and> digit \<le> 9 then array_read digitPatterns digit
     else if digit = - 1 then Some PATTERN_MINUS
     else Some PATTERN_BLANK)"

section \<open>The state shared by both variants\<close>

text \<open>
  The globals that both files declare under the same names, and the trace of the writes
  to the display latches. C zero-initialises them.
\<close>

record calc_state =
  num1 :: int
  num2 :: int
  operator :: int
  keyVal :: byte
  result :: int
  waitingForHashKey :: bool
  validInput :: bool
  out :: "event list"

definition set_LATD :: "byte \<Rightarrow> 'a calc_state_scheme \<Rightarrow> 'a calc_state_scheme" where
  "set_LATD v s = s\<lparr>out := out s @ [LATD v]\<rparr>"

definition set_LATA :: "byte \<Rightarrow> 'a calc_state_scheme \<Rightarrow> 'a calc_state_scheme" where
  "set_LATA v s = s\<lparr>out := out s @ [LATA v]\<rparr>"

text \<open>\<^verbatim>\<open>for (int i = 0; i < n; i++) body\<close> runs \<open>body\<close> \<open>nat n\<close> times.\<close>

primrec repeat :: "nat \<Rightarrow> ('s \<Rightarrow> 's) \<Rightarrow> 's \<Rightarrow> 's" where
  "repeat 0 body s = s"
| "repeat (Suc n) body s = repeat n body (body s)"

text \<open>
  \<^verbatim>\<open>scanKeypad()\<close> is the environment: the calculator sees the sequence of the
  key codes that successive calls return (\<open>0xFF\<close>: no key, \<open>0\<close> to \<open>9\<close>: a digit,
  \<open>0xA\<close> to \<open>0xD\<close>: the operators A to D, \<open>0xE\<close>: the key \<open>*\<close>, reset, \<open>0xF\<close>:
  the key \<open>#\<close>, confirm). Every loop of the calculator that waits for a key calls
  \<^verbatim>\<open>scanKeypad()\<close> once per iteration and leaves only on a key, so a routine that is
  given a finite sequence of scan results either returns, with the scan results it has
  not consumed, or is still in one of its loops when the sequence ends: \<open>Waiting\<close>,
  with the loop it is in and the state at its call of \<^verbatim>\<open>scanKeypad()\<close>.
\<close>

datatype wait_point =
    In_getNum1_first
  | In_getNum1_second
  | In_getOperator
  | In_getNum2_first
  | In_getNum2_second
  | In_displayResult_confirm
  | In_displayResult_error
  | In_displayResult_result
  | In_displayBinaryWithBlink

datatype ('a, 's) outcome = Waiting wait_point 's | Returned 'a 's "byte list"

definition and_then ::
  "('a, 's) outcome \<Rightarrow> ('a \<Rightarrow> 's \<Rightarrow> byte list \<Rightarrow> ('b, 's) outcome) \<Rightarrow> ('b, 's) outcome" where
  "and_then m f = (case m of Waiting w s \<Rightarrow> Waiting w s | Returned v s ks \<Rightarrow> f v s ks)"

section \<open>Part 1: calculatorLED.c\<close>

record led_state = calc_state +
  num11 :: int
  num12 :: int
  num21 :: int
  num22 :: int

definition led_initial :: led_state where
  "led_initial =
    \<lparr>num1 = 0, num2 = 0, operator = 0, keyVal = 0, result = 0,
     waitingForHashKey = False, validInput = False, out = [],
     num11 = 0, num12 = 0, num21 = 0, num22 = 0\<rparr>"

text \<open>\<^verbatim>\<open>blinkLED\<close>, lines 97-104. The parameter \<^verbatim>\<open>delay_ms\<close> is not used by the source.\<close>

definition led_blinkLED :: "byte \<Rightarrow> int \<Rightarrow> int \<Rightarrow> led_state \<Rightarrow> led_state" where
  "led_blinkLED pattern count delay_ms s =
     repeat (nat count) (\<lambda>s. set_LATD 0x00 (set_LATD pattern s)) s"

text \<open>\<^verbatim>\<open>initialize\<close>, lines 78-94 (the writes to PORTD).\<close>

definition led_initialize :: "led_state \<Rightarrow> led_state" where
  "led_initialize s =
     set_LATD 0x00 (led_blinkLED 0x01 3 250 (led_blinkLED 0xFF 3 250 (set_LATD 0x00 s)))"

text \<open>\<^verbatim>\<open>resetCalculator\<close>, lines 456-465.\<close>

definition led_resetCalculator :: "led_state \<Rightarrow> led_state" where
  "led_resetCalculator s =
     set_LATD 0x00
       (s\<lparr>num1 := 0, num2 := 0, operator := 0, waitingForHashKey := False,
          validInput := False\<rparr>)"

text \<open>\<^verbatim>\<open>getNum1\<close>, lines 171-227: the inner loop (lines 193-223), the outer loop
  (lines 177-226) and the function.\<close>

fun led_getNum1_second :: "byte list \<Rightarrow> led_state \<Rightarrow> (int, led_state) outcome" where
  "led_getNum1_second [] s = Waiting In_getNum1_second s"
| "led_getNum1_second (k # ks) s =
    (let s1 = s\<lparr>keyVal := k\<rparr> in
     if k = 0xFF then led_getNum1_second ks s1
     else if k \<le> 9 then
       (let s2 = s1\<lparr>num12 := uint k\<rparr>;
            s3 = s2\<lparr>num1 := int16 (int16 (num11 s2 * 10) + num12 s2)\<rparr>;
            s4 = (if num1 s3 > MAX_INPUT then s3\<lparr>num1 := MAX_INPUT\<rparr> else s3);
            s5 = set_LATD 0x01 s4
        in Returned (num1 s5) s5 ks)
     else if 0xA \<le> k \<and> k \<le> 0xD then
       (let s2 = s1\<lparr>num1 := num11 s1\<rparr>;
            s3 = s2\<lparr>operator := uint k\<rparr>
        in Returned (num1 s3) s3 ks)
     else if k = 0xF then
       (let s2 = s1\<lparr>num1 := num11 s1\<rparr> in Returned (num1 s2) s2 ks)
     else if k = 0xE then
       Returned 0xFF (led_blinkLED 0x01 5 200 (led_resetCalculator s1)) ks
     else led_getNum1_second ks s1)"

fun led_getNum1_first :: "byte list \<Rightarrow> led_state \<Rightarrow> (int, led_state) outcome" where
  "led_getNum1_first [] s = Waiting In_getNum1_first s"
| "led_getNum1_first (k # ks) s =
    (let s1 = s\<lparr>keyVal := k\<rparr> in
     if k = 0xFF then led_getNum1_first ks s1
     else if k = 0xE then
       Returned 0xFF (led_blinkLED 0x01 5 200 (led_resetCalculator s1)) ks
     else if k \<le> 9 then
       led_getNum1_second ks (set_LATD 0x01 (s1\<lparr>num11 := uint k, validInput := True\<rparr>))
     else led_getNum1_first ks s1)"

definition led_getNum1 :: "byte list \<Rightarrow> led_state \<Rightarrow> (int, led_state) outcome" where
  "led_getNum1 ks s =
     led_getNum1_first ks (set_LATD 0x00 (s\<lparr>num11 := 0, num12 := 0, validInput := False\<rparr>))"

text \<open>\<^verbatim>\<open>getOperator\<close>, lines 230-254.\<close>

fun led_getOperator_loop :: "byte list \<Rightarrow> led_state \<Rightarrow> (int, led_state) outcome" where
  "led_getOperator_loop [] s = Waiting In_getOperator s"
| "led_getOperator_loop (k # ks) s =
    (let s1 = s\<lparr>keyVal := k\<rparr> in
     if k = 0xFF then led_getOperator_loop ks s1
     else if 0xA \<le> k \<and> k \<le> 0xD then Returned (uint k) (set_LATD 0x04 s1) ks
     else if k = 0xE then
       Returned 0 (led_blinkLED 0x01 5 200 (led_resetCalculator s1)) ks
     else led_getOperator_loop ks s1)"

definition led_getOperator :: "byte list \<Rightarrow> led_state \<Rightarrow> (int, led_state) outcome" where
  "led_getOperator ks s =
    (if 0xA \<le> operator s \<and> operator s \<le> 0xD then
       (let temp = operator s in Returned temp (s\<lparr>operator := 0\<rparr>) ks)
     else led_getOperator_loop ks (set_LATD 0x04 s))"

text \<open>\<^verbatim>\<open>getNum2\<close>, lines 257-310.\<close>

fun led_getNum2_second :: "byte list \<Rightarrow> led_state \<Rightarrow> (int, led_state) outcome" where
  "led_getNum2_second [] s = Waiting In_getNum2_second s"
| "led_getNum2_second (k # ks) s =
    (let s1 = s\<lparr>keyVal := k\<rparr> in
     if k = 0xFF then led_getNum2_second ks s1
     else if k \<le> 9 then
       (let s2 = s1\<lparr>num22 := uint k\<rparr>;
            s3 = s2\<lparr>num2 := int16 (int16 (num21 s2 * 10) + num22 s2)\<rparr>;
            s4 = (if num2 s3 > MAX_INPUT then s3\<lparr>num2 := MAX_INPUT\<rparr> else s3);
            s5 = set_LATD 0x02 s4;
            s6 = s5\<lparr>waitingForHashKey := True\<rparr>
        in Returned (num2 s6) s6 ks)
     else if k = 0xF then
       (let s2 = s1\<lparr>num2 := num21 s1\<rparr>;
            s3 = s2\<lparr>waitingForHashKey := True\<rparr>
        in Returned (num2 s3) s3 ks)
     else if k = 0xE then
       Returned 0xFF (led_blinkLED 0x01 5 200 (led_resetCalculator s1)) ks
     else led_getNum2_second ks s1)"

fun led_getNum2_first :: "byte list \<Rightarrow> led_state \<Rightarrow> (int, led_state) outcome" where
  "led_getNum2_first [] s = Waiting In_getNum2_first s"
| "led_getNum2_first (k # ks) s =
    (let s1 = s\<lparr>keyVal := k\<rparr> in
     if k = 0xFF then led_getNum2_first ks s1
     else if k = 0xE then
       Returned 0xFF (led_blinkLED 0x01 5 200 (led_resetCalculator s1)) ks
     else if k \<le> 9 then
       led_getNum2_second ks (set_LATD 0x02 (s1\<lparr>num21 := uint k, validInput := True\<rparr>))
     else led_getNum2_first ks s1)"

definition led_getNum2 :: "byte list \<Rightarrow> led_state \<Rightarrow> (int, led_state) outcome" where
  "led_getNum2 ks s =
     led_getNum2_first ks (set_LATD 0x02 (s\<lparr>num21 := 0, num22 := 0, validInput := False\<rparr>))"

text \<open>
  \<^verbatim>\<open>doOperation\<close>, lines 313-343. The parameters and the local \<^verbatim>\<open>result\<close> hide the
  globals of the same names; the only effect is the blinking of all LEDs on a division
  by zero. \<open>sdiv\<close> is the division of C, truncated towards zero.
\<close>

definition led_doOperation :: "int \<Rightarrow> int \<Rightarrow> int \<Rightarrow> led_state \<Rightarrow> int \<times> led_state" where
  "led_doOperation a b op s =
    (if op = 0xA then (int16 (a + b), s)
     else if op = 0xB then (int16 (a - b), s)
     else if op = 0xC then
       (let r = int16 (a * b) in (if r > MAX_INPUT then MAX_INPUT else r, s))
     else if op = 0xD then
       (if b \<noteq> 0 then (int16 (a sdiv b), s)
        else (- 1, led_blinkLED 0xFF 5 200 s))
     else (0, s))"

text \<open>\<^verbatim>\<open>displayBinary\<close>, lines 346-356.\<close>

definition led_displayBinary :: "int \<Rightarrow> led_state \<Rightarrow> led_state" where
  "led_displayBinary number s =
    (let n = (if number > 0xFF then 0xFF
              else if number < 0 then
                (let m = int16 (- number) in if m > 0x7F then 0x7F else m)
              else number)
     in set_LATD (word_of_int n) s)"

text \<open>\<^verbatim>\<open>displayBinaryWithBlink\<close>, lines 359-404. The loop of lines 379-400 carries the
  locals \<^verbatim>\<open>blink_counter\<close> and \<^verbatim>\<open>blink_state\<close>.\<close>

definition BLINK_RATE :: nat where
  "BLINK_RATE = 5"

definition led_blink_state :: "nat \<Rightarrow> bool \<Rightarrow> bool" where
  "led_blink_state blink_counter blink_state =
     (if blink_counter + 1 \<ge> BLINK_RATE then \<not> blink_state else blink_state)"

definition led_blink_counter :: "nat \<Rightarrow> nat" where
  "led_blink_counter blink_counter =
     (if blink_counter + 1 \<ge> BLINK_RATE then 0 else blink_counter + 1)"

definition led_blink_write :: "int \<Rightarrow> bool \<Rightarrow> led_state \<Rightarrow> led_state" where
  "led_blink_write number blink_state s =
     (if blink_state then set_LATD (word_of_int number OR 0x80) s
      else set_LATD (word_of_int number AND 0x7F) s)"

fun led_blink_loop ::
  "int \<Rightarrow> nat \<Rightarrow> bool \<Rightarrow> byte list \<Rightarrow> led_state \<Rightarrow> (unit, led_state) outcome" where
  "led_blink_loop number c b [] s =
     Waiting In_displayBinaryWithBlink (led_blink_write number (led_blink_state c b) s)"
| "led_blink_loop number c b (k # ks) s =
    (let s1 = led_blink_write number (led_blink_state c b) s;
         s2 = s1\<lparr>keyVal := k\<rparr>
     in if k = 0xE then Returned () (led_resetCalculator s2) ks
        else led_blink_loop number (led_blink_counter c) (led_blink_state c b) ks s2)"

definition led_displayBinaryWithBlink ::
  "int \<Rightarrow> byte list \<Rightarrow> led_state \<Rightarrow> (unit, led_state) outcome" where
  "led_displayBinaryWithBlink number ks s =
    (if number < 0 then
       (let m = int16 (- number);
            n = (if m > 0x7F then 0x7F else m)
        in led_blink_loop n 0 False ks s)
     else
       (let n = (if number > 0xFF then 0xFF else number)
        in Returned () (led_displayBinary n s) ks))"

text \<open>\<^verbatim>\<open>displayResult\<close>, lines 407-453. The loop
  \<^verbatim>\<open>while(1) { keyVal = scanKeypad(); if (keyVal == 0xE) { resetCalculator(); return; } }\<close>
  stands twice in it (lines 424-430 and 435-441): \<open>led_hold_until_reset\<close>. The branch
  of the key \<open>#\<close> (lines 418-445) is \<open>led_displayResult_hash\<close>, the loop that waits for
  \<open>#\<close> (lines 413-452) is \<open>led_displayResult_wait\<close>.\<close>

fun led_hold_until_reset ::
  "wait_point \<Rightarrow> byte list \<Rightarrow> led_state \<Rightarrow> (unit, led_state) outcome" where
  "led_hold_until_reset w [] s = Waiting w s"
| "led_hold_until_reset w (k # ks) s =
    (let s1 = s\<lparr>keyVal := k\<rparr> in
     if k = 0xE then Returned () (led_resetCalculator s1) ks
     else led_hold_until_reset w ks s1)"

definition led_displayResult_hash :: "byte list \<Rightarrow> led_state \<Rightarrow> (unit, led_state) outcome" where
  "led_displayResult_hash ks s =
    (let (r, s1) = led_doOperation (num1 s) (num2 s) (operator s) s;
         s2 = s1\<lparr>result := r\<rparr>;
         s3 = set_LATD 0x00 s2
     in if result s3 = - 1 \<and> num2 s3 = 0 then
          led_hold_until_reset In_displayResult_error ks s3
        else
          and_then (led_displayBinaryWithBlink (result s3) ks s3)
            (\<lambda>_ s4 ks4.
               if result s4 \<ge> 0 then led_hold_until_reset In_displayResult_result ks4 s4
               else Returned () s4 ks4))"

fun led_displayResult_wait :: "byte list \<Rightarrow> led_state \<Rightarrow> (unit, led_state) outcome" where
  "led_displayResult_wait [] s = Waiting In_displayResult_confirm s"
| "led_displayResult_wait (k # ks) s =
    (let s1 = s\<lparr>keyVal := k\<rparr> in
     if k = 0xFF then led_displayResult_wait ks s1
     else if k = 0xF then led_displayResult_hash ks s1
     else if k = 0xE then
       Returned () (led_blinkLED 0x01 5 200 (led_resetCalculator s1)) ks
     else led_displayResult_wait ks s1)"

definition led_displayResult :: "byte list \<Rightarrow> led_state \<Rightarrow> (unit, led_state) outcome" where
  "led_displayResult ks s =
     led_displayResult_wait ks
       (if \<not> waitingForHashKey s then led_blinkLED 0x08 3 200 s else s)"

text \<open>One iteration of the loop of \<^verbatim>\<open>main\<close>, lines 471-489: \<open>Returned\<close> is the
  end of the iteration, by \<^verbatim>\<open>continue\<close> or at the end of the body.\<close>

definition led_main_body :: "byte list \<Rightarrow> led_state \<Rightarrow> (unit, led_state) outcome" where
  "led_main_body ks s =
     and_then (led_getNum1 ks (led_resetCalculator s))
       (\<lambda>v s1 ks1.
          let s2 = set_LATD 0x01 (s1\<lparr>num1 := v\<rparr>) in
          if num1 s2 = 0xFF then Returned () s2 ks1
          else and_then (led_getOperator ks1 s2)
            (\<lambda>v s3 ks2.
               let s4 = set_LATD 0x04 (s3\<lparr>operator := v\<rparr>) in
               if operator s4 = 0 then Returned () s4 ks2
               else and_then (led_getNum2 ks2 s4)
                 (\<lambda>v s5 ks3.
                    let s6 = set_LATD 0x02 (s5\<lparr>num2 := v\<rparr>) in
                    if num2 s6 = 0xFF then Returned () s6 ks3
                    else led_displayResult ks3 s6)))"

text \<open>
  \<^verbatim>\<open>main\<close>, lines 468-490: \<^verbatim>\<open>initialize()\<close>, then the loop. The loop never ends;
  every iteration that ends has consumed a key, so on a finite sequence of scan results
  it stops in one of the waiting loops after at most as many iterations as there are
  scan results, plus one. \<open>led_main_loop\<close> counts the iterations down from a bound
  (\<open>None\<close>: the bound is used up).
\<close>

primrec led_main_loop ::
  "nat \<Rightarrow> byte list \<Rightarrow> led_state \<Rightarrow> (wait_point \<times> led_state) option" where
  "led_main_loop 0 ks s = None"
| "led_main_loop (Suc n) ks s =
    (case led_main_body ks s of
       Waiting w s' \<Rightarrow> Some (w, s')
     | Returned v s' ks' \<Rightarrow> led_main_loop n ks' s')"

definition led_main :: "byte list \<Rightarrow> (wait_point \<times> led_state) option" where
  "led_main ks = led_main_loop (Suc (length ks)) ks (led_initialize led_initial)"

section \<open>Part 2: calculatorSevenSeg.c\<close>

text \<open>
  \<open>previousMode\<close> is the static local of \<^verbatim>\<open>updateDisplay\<close>. \<open>fault\<close> is not a
  variable of the program: it is set when the program reads an array outside its bounds,
  and never cleared. The refreshing of the display inside \<^verbatim>\<open>scanKeypad()\<close> repeats
  \<^verbatim>\<open>currentDisplayValue\<close> and is not recorded in the trace.
\<close>

record seg_state = calc_state +
  num1_tens :: int
  num1_units :: int
  num2_tens :: int
  num2_units :: int
  displayMode :: int
  currentDisplayValue :: int
  isDisplayNegative :: bool
  previousMode :: int
  fault :: bool

definition seg_initial :: seg_state where
  "seg_initial =
    \<lparr>num1 = 0, num2 = 0, operator = 0, keyVal = 0, result = 0,
     waitingForHashKey = False, validInput = False, out = [],
     num1_tens = 0, num1_units = 0, num2_tens = 0, num2_units = 0,
     displayMode = 0, currentDisplayValue = 0, isDisplayNegative = False,
     previousMode = DISPLAY_RESET, fault = False\<rparr>"

text \<open>\<^verbatim>\<open>LATD = p\<close> where \<open>p\<close> is read from an array.\<close>

definition set_LATD_read :: "byte option \<Rightarrow> seg_state \<Rightarrow> seg_state" where
  "set_LATD_read r s = (case r of None \<Rightarrow> s\<lparr>fault := True\<rparr> | Some p \<Rightarrow> set_LATD p s)"

text \<open>\<^verbatim>\<open>displayDigit\<close>, lines 166-182.\<close>

definition displayDigit :: "int \<Rightarrow> int \<Rightarrow> bool \<Rightarrow> seg_state \<Rightarrow> seg_state" where
  "displayDigit digit position dp s =
    (let pattern = encodeDigit digit;
         pattern1 = (if dp then map_option (\<lambda>p. p OR SEG_DP) pattern else pattern);
         s1 = set_LATA 0x00 s;
         s2 = set_LATD_read pattern1 s1
     in if position = 0 then set_LATA (push_bit TENS_DIGIT_PIN 1) s2
        else set_LATA (push_bit UNITS_DIGIT_PIN 1) s2)"

text \<open>\<^verbatim>\<open>displayNumber\<close>, lines 195-222. \<open>sdiv\<close> and \<open>smod\<close> are the division and
  the remainder of C.\<close>

definition displayNumber :: "int \<Rightarrow> seg_state \<Rightarrow> seg_state" where
  "displayNumber number s =
    (let isNegative = (number < 0);
         n = (if number < 0 then
                (let m = int16 (- number) in if m > 99 then 99 else m)
              else if number > 99 then 99 else number);
         tens = int16 (n sdiv 10);
         units = int16 (n smod 10);
         s1 = displayDigit tens 0 False s
     in displayDigit units 1 isNegative s1)"

text \<open>\<^verbatim>\<open>refreshDisplay\<close>, lines 185-192.\<close>

definition refreshDisplay :: "int \<Rightarrow> seg_state \<Rightarrow> seg_state" where
  "refreshDisplay number s =
     repeat 30 (displayNumber number)
       (s\<lparr>currentDisplayValue := number, isDisplayNegative := (number < 0)\<rparr>)"

text \<open>\<^verbatim>\<open>blinkDisplay\<close>, lines 225-240. The parameter \<^verbatim>\<open>delay_ms\<close> is not used by the
  source.\<close>

definition blinkDisplay :: "int \<Rightarrow> int \<Rightarrow> seg_state \<Rightarrow> seg_state" where
  "blinkDisplay count delay_ms s =
     repeat (nat count)
       (\<lambda>s. set_LATD 0x00 (set_LATA 0x00
              (set_LATD 0xFF (set_LATA (push_bit UNITS_DIGIT_PIN 1)
                (set_LATD 0xFF (set_LATA (push_bit TENS_DIGIT_PIN 1) s)))))) s"

text \<open>\<^verbatim>\<open>updateDisplay\<close>, lines 243-289.\<close>

definition updateDisplay :: "int \<Rightarrow> int \<Rightarrow> seg_state \<Rightarrow> seg_state" where
  "updateDisplay val mode s =
    (let s1 = s\<lparr>displayMode := mode\<rparr>;
         s2 =
          (if previousMode s1 = DISPLAY_NUM1 \<and> mode = DISPLAY_OPERATOR then
             (let rememberedNum1 = currentDisplayValue s1;
                  s' = repeat 10
                        (\<lambda>s. displayNumber rememberedNum1
                                (displayDigit 11 1 False (displayDigit val 0 False s))) s1
              in s'\<lparr>currentDisplayValue := rememberedNum1\<rparr>)
           else if mode = DISPLAY_NUM1 \<or> mode = DISPLAY_NUM2 \<or> mode = DISPLAY_RESULT then
             refreshDisplay val s1
           else if mode = DISPLAY_OPERATOR then
             repeat 10 (\<lambda>s. displayDigit 11 1 False (displayDigit val 0 False s)) s1
           else refreshDisplay 0 s1)
     in s2\<lparr>previousMode := mode\<rparr>)"

text \<open>\<^verbatim>\<open>resetCalculator\<close>, lines 670-682.\<close>

definition seg_resetCalculator :: "seg_state \<Rightarrow> seg_state" where
  "seg_resetCalculator s =
     updateDisplay 0 DISPLAY_RESET
       (s\<lparr>num1 := 0, num2 := 0, operator := 0, waitingForHashKey := False,
          validInput := False, displayMode := DISPLAY_RESET, currentDisplayValue := 0,
          isDisplayNegative := False\<rparr>)"

text \<open>\<^verbatim>\<open>initialize\<close>, lines 129-150 (the writes to PORTA and PORTD, and the globals).\<close>

definition seg_initialize :: "seg_state \<Rightarrow> seg_state" where
  "seg_initialize s =
    (let s1 = set_LATD 0x00 (set_LATA 0x00 s);
         s2 = s1\<lparr>displayMode := DISPLAY_RESET, currentDisplayValue := 0,
                 isDisplayNegative := False\<rparr>
     in displayNumber 0 (blinkDisplay 3 500 s2))"

text \<open>\<^verbatim>\<open>getNum1\<close>, lines 395-458: the inner loop (lines 421-455), the outer loop
  (lines 403-457) and the function. The local \<^verbatim>\<open>currentDisplay\<close> is only passed to
  \<^verbatim>\<open>updateDisplay\<close>.\<close>

fun seg_getNum1_second :: "byte list \<Rightarrow> seg_state \<Rightarrow> (int, seg_state) outcome" where
  "seg_getNum1_second [] s = Waiting In_getNum1_second s"
| "seg_getNum1_second (k # ks) s =
    (let s1 = s\<lparr>keyVal := k\<rparr> in
     if k = 0xFF then seg_getNum1_second ks s1
     else if k \<le> 9 then
       (let s2 = s1\<lparr>num1_units := uint k\<rparr>;
            s3 = s2\<lparr>num1 := int16 (int16 (num1_tens s2 * 10) + num1_units s2)\<rparr>;
            s4 = (if num1 s3 > MAX_INPUT then s3\<lparr>num1 := MAX_INPUT\<rparr> else s3);
            s5 = updateDisplay (num1 s4) DISPLAY_NUM1 s4
        in Returned (num1 s5) s5 ks)
     else if 0xA \<le> k \<and> k \<le> 0xD then
       (let s2 = s1\<lparr>num1 := num1_tens s1\<rparr>;
            s3 = s2\<lparr>operator := uint k\<rparr>
        in Returned (num1 s3) s3 ks)
     else if k = 0xF then
       (let s2 = s1\<lparr>num1 := num1_tens s1\<rparr> in Returned (num1 s2) s2 ks)
     else if k = 0xE then Returned 0xFF (seg_resetCalculator s1) ks
     else seg_getNum1_second ks s1)"

fun seg_getNum1_first :: "byte list \<Rightarrow> seg_state \<Rightarrow> (int, seg_state) outcome" where
  "seg_getNum1_first [] s = Waiting In_getNum1_first s"
| "seg_getNum1_first (k # ks) s =
    (let s1 = s\<lparr>keyVal := k\<rparr> in
     if k = 0xFF then seg_getNum1_first ks s1
     else if k = 0xE then Returned 0xFF (seg_resetCalculator s1) ks
     else if k \<le> 9 then
       (let s2 = s1\<lparr>num1_tens := uint k\<rparr>;
            currentDisplay = num1_tens s2;
            s3 = s2\<lparr>validInput := True\<rparr>
        in seg_getNum1_second ks (updateDisplay currentDisplay DISPLAY_NUM1 s3))
     else seg_getNum1_first ks s1)"

definition seg_getNum1 :: "byte list \<Rightarrow> seg_state \<Rightarrow> (int, seg_state) outcome" where
  "seg_getNum1 ks s =
     seg_getNum1_first ks
       (updateDisplay 0 DISPLAY_NUM1
          (s\<lparr>num1_tens := 0, num1_units := 0, validInput := False\<rparr>))"

text \<open>\<^verbatim>\<open>getOperator\<close>, lines 461-512. \<open>seg_show_operator\<close> is the loop that stands at
  lines 468-476 and at lines 494-501.\<close>

definition seg_show_operator :: "int \<Rightarrow> int \<Rightarrow> seg_state \<Rightarrow> seg_state" where
  "seg_show_operator opcode storedNum1 s =
     repeat 10
       (\<lambda>s. displayNumber storedNum1
               (displayDigit 11 1 False (displayDigit opcode 0 False s))) s"

fun seg_getOperator_loop ::
  "int \<Rightarrow> byte list \<Rightarrow> seg_state \<Rightarrow> (int, seg_state) outcome" where
  "seg_getOperator_loop storedNum1 [] s =
     Waiting In_getOperator (displayNumber storedNum1 s)"
| "seg_getOperator_loop storedNum1 (k # ks) s =
    (let s1 = (displayNumber storedNum1 s)\<lparr>keyVal := k\<rparr> in
     if k = 0xFF then seg_getOperator_loop storedNum1 ks (displayNumber storedNum1 s1)
     else if 0xA \<le> k \<and> k \<le> 0xD then
       (let s2 = seg_show_operator (uint k) storedNum1 s1;
            s3 = s2\<lparr>currentDisplayValue := storedNum1\<rparr>
        in Returned (uint k) s3 ks)
     else if k = 0xE then Returned 0 (seg_resetCalculator s1) ks
     else seg_getOperator_loop storedNum1 ks s1)"

definition seg_getOperator :: "byte list \<Rightarrow> seg_state \<Rightarrow> (int, seg_state) outcome" where
  "seg_getOperator ks s =
    (let storedNum1 = num1 s in
     if 0xA \<le> operator s \<and> operator s \<le> 0xD then
       (let temp = operator s;
            s1 = seg_show_operator temp storedNum1 s;
            s2 = s1\<lparr>currentDisplayValue := storedNum1\<rparr>
        in Returned temp s2 ks)
     else seg_getOperator_loop storedNum1 ks s)"

text \<open>\<^verbatim>\<open>getNum2\<close>, lines 515-568.\<close>

fun seg_getNum2_second :: "byte list \<Rightarrow> seg_state \<Rightarrow> (int, seg_state) outcome" where
  "seg_getNum2_second [] s = Waiting In_getNum2_second s"
| "seg_getNum2_second (k # ks) s =
    (let s1 = s\<lparr>keyVal := k\<rparr> in
     if k = 0xFF then seg_getNum2_second ks s1
     else if k \<le> 9 then
       (let s2 = s1\<lparr>num2_units := uint k\<rparr>;
            s3 = s2\<lparr>num2 := int16 (int16 (num2_tens s2 * 10) + num2_units s2)\<rparr>;
            s4 = (if num2 s3 > MAX_INPUT then s3\<lparr>num2 := MAX_INPUT\<rparr> else s3);
            s5 = updateDisplay (num2 s4) DISPLAY_NUM2 s4;
            s6 = s5\<lparr>waitingForHashKey := True\<rparr>
        in Returned (num2 s6) s6 ks)
     else if k = 0xF then
       (let s2 = s1\<lparr>num2 := num2_tens s1\<rparr>;
            s3 = s2\<lparr>waitingForHashKey := True\<rparr>
        in Returned (num2 s3) s3 ks)
     else if k = 0xE then Returned 0 (seg_resetCalculator s1) ks
     else seg_getNum2_second ks s1)"

fun seg_getNum2_first :: "byte list \<Rightarrow> seg_state \<Rightarrow> (int, seg_state) outcome" where
  "seg_getNum2_first [] s = Waiting In_getNum2_first s"
| "seg_getNum2_first (k # ks) s =
    (let s1 = s\<lparr>keyVal := k\<rparr> in
     if k = 0xFF then seg_getNum2_first ks s1
     else if k = 0xE then Returned 0 (seg_resetCalculator s1) ks
     else if k \<le> 9 then
       (let s2 = s1\<lparr>num2_tens := uint k\<rparr>;
            currentDisplay = num2_tens s2;
            s3 = s2\<lparr>validInput := True\<rparr>
        in seg_getNum2_second ks (updateDisplay currentDisplay DISPLAY_NUM2 s3))
     else seg_getNum2_first ks s1)"

definition seg_getNum2 :: "byte list \<Rightarrow> seg_state \<Rightarrow> (int, seg_state) outcome" where
  "seg_getNum2 ks s =
     seg_getNum2_first ks
       (updateDisplay 0 DISPLAY_NUM2
          (s\<lparr>num2_tens := 0, num2_units := 0, validInput := False\<rparr>))"

text \<open>\<^verbatim>\<open>doOperation\<close>, lines 571-625. \<open>seg_show_error\<close> is the loop of lines
  596-609.\<close>

definition seg_show_error :: "seg_state \<Rightarrow> seg_state" where
  "seg_show_error s =
     repeat 5
       (\<lambda>s. set_LATD 0x00 (set_LATA 0x00
              (set_LATD_read (array_read digitPatterns 0)
                (set_LATA (push_bit UNITS_DIGIT_PIN 1)
                  (set_LATD PATTERN_E (set_LATA (push_bit TENS_DIGIT_PIN 1) s)))))) s"

definition seg_clamp99 :: "int \<Rightarrow> int" where
  "seg_clamp99 r = (if r > 99 then 99 else if r < - 99 then - 99 else r)"

definition seg_doOperation :: "int \<Rightarrow> int \<Rightarrow> int \<Rightarrow> seg_state \<Rightarrow> int \<times> seg_state" where
  "seg_doOperation a b op s =
    (if op = 0xA then (seg_clamp99 (int16 (a + b)), s)
     else if op = 0xB then (seg_clamp99 (int16 (a - b)), s)
     else if op = 0xC then (seg_clamp99 (seg_clamp99 (int16 (a * b))), s)
     else if op = 0xD then
       (if b \<noteq> 0 then (seg_clamp99 (int16 (a sdiv b)), s)
        else (0, seg_show_error s))
     else (0, s))"

text \<open>\<^verbatim>\<open>displayResult\<close>, lines 628-667: the announcement of lines 630-640, the loop
  of the displayed result (lines 654-660), the branch of the key \<open>#\<close> (lines 649-661)
  and the loop that waits for \<open>#\<close> (lines 643-666).\<close>

definition seg_announce_wait :: "seg_state \<Rightarrow> seg_state" where
  "seg_announce_wait s =
     repeat 3 (\<lambda>s. refreshDisplay (num2 s) (set_LATD 0x00 (set_LATA 0x00 s))) s"

fun seg_hold_until_reset ::
  "wait_point \<Rightarrow> byte list \<Rightarrow> seg_state \<Rightarrow> (unit, seg_state) outcome" where
  "seg_hold_until_reset w [] s = Waiting w s"
| "seg_hold_until_reset w (k # ks) s =
    (let s1 = s\<lparr>keyVal := k\<rparr> in
     if k = 0xE then Returned () (seg_resetCalculator s1) ks
     else seg_hold_until_reset w ks s1)"

definition seg_displayResult_hash ::
  "byte list \<Rightarrow> seg_state \<Rightarrow> (unit, seg_state) outcome" where
  "seg_displayResult_hash ks s =
    (let (r, s1) = seg_doOperation (num1 s) (num2 s) (operator s) s;
         s2 = s1\<lparr>result := r\<rparr>;
         s3 = updateDisplay (result s2) DISPLAY_RESULT s2
     in seg_hold_until_reset In_displayResult_result ks s3)"

fun seg_displayResult_wait :: "byte list \<Rightarrow> seg_state \<Rightarrow> (unit, seg_state) outcome" where
  "seg_displayResult_wait [] s = Waiting In_displayResult_confirm s"
| "seg_displayResult_wait (k # ks) s =
    (let s1 = s\<lparr>keyVal := k\<rparr> in
     if k = 0xFF then seg_displayResult_wait ks s1
     else if k = 0xF then seg_displayResult_hash ks s1
     else if k = 0xE then Returned () (seg_resetCalculator s1) ks
     else seg_displayResult_wait ks s1)"

definition seg_displayResult :: "byte list \<Rightarrow> seg_state \<Rightarrow> (unit, seg_state) outcome" where
  "seg_displayResult ks s =
     seg_displayResult_wait ks (if \<not> waitingForHashKey s then seg_announce_wait s else s)"

text \<open>One iteration of the loop of \<^verbatim>\<open>main\<close>, lines 690-711.\<close>

definition seg_main_body :: "byte list \<Rightarrow> seg_state \<Rightarrow> (unit, seg_state) outcome" where
  "seg_main_body ks s =
     and_then (seg_getNum1 ks (seg_resetCalculator s))
       (\<lambda>v s1 ks1.
          let s2 = s1\<lparr>num1 := v\<rparr> in
          if num1 s2 = 0xFF then Returned () s2 ks1
          else
            let s3 = s2\<lparr>currentDisplayValue := num1 s2\<rparr> in
            and_then (seg_getOperator ks1 s3)
              (\<lambda>v s4 ks2.
                 let s5 = s4\<lparr>operator := v\<rparr> in
                 if operator s5 = 0 then Returned () s5 ks2
                 else
                   let savedNum1 = currentDisplayValue s5 in
                   and_then (seg_getNum2 ks2 s5)
                     (\<lambda>v s6 ks3.
                        let s7 = s6\<lparr>num2 := v\<rparr> in
                        if num2 s7 = 0xFF then Returned () s7 ks3
                        else seg_displayResult ks3 (s7\<lparr>num1 := savedNum1\<rparr>))))"

text \<open>\<^verbatim>\<open>main\<close>, lines 685-712, as in Part 1.\<close>

primrec seg_main_loop ::
  "nat \<Rightarrow> byte list \<Rightarrow> seg_state \<Rightarrow> (wait_point \<times> seg_state) option" where
  "seg_main_loop 0 ks s = None"
| "seg_main_loop (Suc n) ks s =
    (case seg_main_body ks s of
       Waiting w s' \<Rightarrow> Some (w, s')
     | Returned v s' ks' \<Rightarrow> seg_main_loop n ks' s')"

definition seg_main :: "byte list \<Rightarrow> (wait_point \<times> seg_state) option" where
  "seg_main ks = seg_main_loop (Suc (length ks)) ks (seg_initialize seg_initial)"

section \<open>Auxiliary definitions\<close>

text \<open>Saturation as the specification words it: clamping an out-of-range value to the
  nearest boundary of the range \<open>lo .. hi\<close>.\<close>

definition spec_saturate :: "int \<Rightarrow> int \<Rightarrow> int \<Rightarrow> int" where
  "spec_saturate lo hi x = (if x < lo then lo else if x > hi then hi else x)"

text \<open>What an outcome shows: the loop the program waits in, and the state.\<close>

definition waiting_at :: "('a, 's) outcome \<Rightarrow> wait_point option" where
  "waiting_at r = (case r of Waiting w s \<Rightarrow> Some w | Returned v s ks \<Rightarrow> None)"

definition state_of :: "('a, 's) outcome \<Rightarrow> 's" where
  "state_of r = (case r of Waiting w s \<Rightarrow> s | Returned v s ks \<Rightarrow> s)"

definition returned :: "('a, 's) outcome \<Rightarrow> ('a \<times> byte list) option" where
  "returned r = (case r of Waiting w s \<Rightarrow> None | Returned v s ks \<Rightarrow> Some (v, ks))"

text \<open>The writes of a display routine of Part 2 that reads nothing from the state.\<close>

definition events_of :: "(seg_state \<Rightarrow> seg_state) \<Rightarrow> event list" where
  "events_of f = out (f seg_initial)"

text \<open>
  Two states of a variant are the same for the rest of a calculation when they agree on
  every global but the digits of the first operand, and their traces are the given
  prefixes \<open>ps\<close> and \<open>pt\<close> followed by the same writes. Two outcomes are related when
  they wait in the same loop or return the same value with the same keys left, in
  related states.
\<close>

definition led_same :: "event list \<Rightarrow> event list \<Rightarrow> led_state \<Rightarrow> led_state \<Rightarrow> bool" where
  "led_same ps pt s t =
    (num1 s = num1 t \<and> num2 s = num2 t \<and> operator s = operator t \<and> keyVal s = keyVal t
     \<and> result s = result t \<and> waitingForHashKey s = waitingForHashKey t
     \<and> validInput s = validInput t \<and> num21 s = num21 t \<and> num22 s = num22 t
     \<and> take (length ps) (out s) = ps \<and> take (length pt) (out t) = pt
     \<and> drop (length ps) (out s) = drop (length pt) (out t))"

fun outcome_rel ::
  "('s \<Rightarrow> 's \<Rightarrow> bool) \<Rightarrow> ('a, 's) outcome \<Rightarrow> ('a, 's) outcome \<Rightarrow> bool" where
  "outcome_rel R (Waiting w s) (Waiting w' t) = (w = w' \<and> R s t)"
| "outcome_rel R (Returned v s ks) (Returned v' t ks') = (v = v' \<and> ks = ks' \<and> R s t)"
| "outcome_rel R (Waiting w s) (Returned v' t ks') = False"
| "outcome_rel R (Returned v s ks) (Waiting w' t) = False"

definition seg_same :: "event list \<Rightarrow> event list \<Rightarrow> seg_state \<Rightarrow> seg_state \<Rightarrow> bool" where
  "seg_same ps pt s t =
    (num1 s = num1 t \<and> num2 s = num2 t \<and> operator s = operator t \<and> keyVal s = keyVal t
     \<and> result s = result t \<and> waitingForHashKey s = waitingForHashKey t
     \<and> validInput s = validInput t \<and> num2_tens s = num2_tens t \<and> num2_units s = num2_units t
     \<and> displayMode s = displayMode t \<and> currentDisplayValue s = currentDisplayValue t
     \<and> isDisplayNegative s = isDisplayNegative t \<and> previousMode s = previousMode t
     \<and> fault s = fault t
     \<and> take (length ps) (out s) = ps \<and> take (length pt) (out t) = pt
     \<and> drop (length ps) (out s) = drop (length pt) (out t))"

text \<open>What is left of a sequence of scan results that ends with the reset key, when a
  routine has returned before its end.\<close>

definition reset_rest :: "nat \<Rightarrow> byte list \<Rightarrow> bool" where
  "reset_rest n ks' = (ks' \<noteq> [] \<and> last ks' = 0xE \<and> length ks' \<le> n)"

section \<open>Arithmetic of the evaluator\<close>

lemma int16_id: "- 32768 \<le> x \<Longrightarrow> x \<le> 32767 \<Longrightarrow> int16 x = x"
  by (simp add: int16_def)

lemma seg_clamp99_range: "- 99 \<le> seg_clamp99 r \<and> seg_clamp99 r \<le> 99"
  by (simp add: seg_clamp99_def)

lemma product_bound:
  fixes a b :: int
  assumes "0 \<le> a" "a \<le> 99" "0 \<le> b" "b \<le> 99"
  shows "0 \<le> a * b \<and> a * b \<le> 9801"
proof -
  have "a * b \<le> 99 * 99" using assms by (intro mult_mono) auto
  moreover have "0 \<le> a * b" using assms by simp
  ultimately show ?thesis by simp
qed

lemma int16_product:
  assumes "0 \<le> a" "a \<le> 99" "0 \<le> b" "b \<le> 99"
  shows "int16 (a * b) = a * b"
  using product_bound [OF assms] by (intro int16_id) auto

lemma led_mul_value:
  assumes "0 \<le> a" "a \<le> 99" "0 \<le> b" "b \<le> 99"
  shows "led_doOperation a b 0xC t = (min (a * b) 99, t)"
  by (simp add: led_doOperation_def int16_product [OF assms] MAX_INPUT_def Let_def min_def)

lemma seg_mul_value:
  assumes "0 \<le> a" "a \<le> 99" "0 \<le> b" "b \<le> 99"
  shows "seg_doOperation a b 0xC s = (min (a * b) 99, s)"
  using product_bound [OF assms]
  by (simp add: seg_doOperation_def int16_product [OF assms] seg_clamp99_def min_def)

lemma min_99_bounds: "(0::int) \<le> p \<Longrightarrow> 0 \<le> min p 99 \<and> min p 99 \<le> 99"
  by simp

text \<open>
  C3, as the code has it. For operands in \<open>0 .. 99\<close> the 7-segment variant saturates
  the product to \<open>- 99 .. 99\<close>. The binary-LED variant saturates it to \<open>0 .. 99\<close>, not to
  \<open>0 .. 255\<close>: \<^verbatim>\<open>doOperation\<close> caps the product at \<^verbatim>\<open>MAX_INPUT\<close>, and has no check
  from below.
\<close>

theorem mul_saturation:
  assumes "0 \<le> a" "a \<le> 99" "0 \<le> b" "b \<le> 99"
  shows "seg_doOperation a b 0xC s = (spec_saturate (- 99) 99 (a * b), s)
       \<and> led_doOperation a b 0xC t = (spec_saturate 0 99 (a * b), t)"
  using product_bound [OF assms]
  by (simp add: seg_doOperation_def led_doOperation_def int16_product [OF assms]
      seg_clamp99_def spec_saturate_def MAX_INPUT_def)

theorem mul_saturation_witness:
  "seg_doOperation 12 10 0xC seg_initial = (99, seg_initial)
   \<and> led_doOperation 12 10 0xC led_initial = (99, led_initial)
   \<and> led_doOperation 7 8 0xC led_initial = (56, led_initial)"
  using mul_saturation [of 12 10 seg_initial led_initial]
    mul_saturation [of 7 8 seg_initial led_initial]
  by (simp add: spec_saturate_def)

text \<open>C3 as stated fails in the binary-LED variant: the product \<open>10 * 12 = 120\<close> lies in
  \<open>0 .. 255\<close>, and \<^verbatim>\<open>doOperation\<close> returns \<open>99\<close>.\<close>

theorem led_mul_not_255_counterexample:
  "fst (led_doOperation 10 12 0xC led_initial) = 99 \<and> spec_saturate 0 255 (10 * 12) = 120"
  by (simp add: led_doOperation_def int16_def MAX_INPUT_def spec_saturate_def)

text \<open>
  C5. For operands in \<open>0 .. 99\<close> and the operators Add, Sub and Mul, \<^verbatim>\<open>doOperation\<close>
  returns a value within the bounds of its variant: \<open>- 99 .. 99\<close> in the 7-segment
  variant; in the binary-LED variant the range that \<^verbatim>\<open>displayBinaryWithBlink\<close> can
  show, \<open>- 0x7F .. 0xFF\<close> (the value lies in \<open>- 99 .. 198\<close>). The evaluation reads
  nothing but its arguments and leaves the state as it is, so evaluating again gives the
  same value.
\<close>

theorem evaluate_in_bounds:
  assumes "0 \<le> a" "a \<le> 99" "0 \<le> b" "b \<le> 99" "op = 0xA \<or> op = 0xB \<or> op = 0xC"
  shows "snd (seg_doOperation a b op s) = s
       \<and> - 99 \<le> fst (seg_doOperation a b op s) \<and> fst (seg_doOperation a b op s) \<le> 99
       \<and> snd (led_doOperation a b op t) = t
       \<and> - 0x7F \<le> fst (led_doOperation a b op t) \<and> fst (led_doOperation a b op t) \<le> 0xFF
       \<and> - 99 \<le> fst (led_doOperation a b op t) \<and> fst (led_doOperation a b op t) \<le> 198"
proof -
  have add: "int16 (a + b) = a + b" and sub: "int16 (a - b) = a - b"
    using assms(1-4) by (auto intro: int16_id)
  have m: "0 \<le> min (a * b) 99 \<and> min (a * b) 99 \<le> 99"
    using product_bound [OF assms(1-4)] by (intro min_99_bounds) simp
  from assms(5) consider "op = 0xA" | "op = 0xB" | "op = 0xC" by blast
  then show ?thesis
  proof cases
    case 1
    then show ?thesis
      using assms(1-4) seg_clamp99_range [of "a + b"]
      by (simp add: seg_doOperation_def led_doOperation_def add)
  next
    case 2
    then show ?thesis
      using assms(1-4) seg_clamp99_range [of "a - b"]
      by (simp add: seg_doOperation_def led_doOperation_def sub)
  next
    case 3
    define r where "r = min (a * b) 99"
    have r: "0 \<le> r" "r \<le> 99"
      using m by (simp_all add: r_def)
    have "seg_doOperation a b op s = (r, s)" "led_doOperation a b op t = (r, t)"
      using 3 by (simp_all add: r_def led_mul_value [OF assms(1-4)] seg_mul_value [OF assms(1-4)])
    then show ?thesis
      using r by simp
  qed
qed

theorem evaluate_in_bounds_witness:
  "fst (seg_doOperation 99 99 0xA seg_initial) = 99
   \<and> fst (led_doOperation 99 99 0xA led_initial) = 198
   \<and> fst (led_doOperation 0 99 0xB led_initial) = - 99
   \<and> snd (led_doOperation 99 99 0xA led_initial) = led_initial"
  using evaluate_in_bounds [of 99 99 "0xA" seg_initial led_initial]
    evaluate_in_bounds [of 0 99 "0xB" seg_initial led_initial]
  by (simp add: seg_doOperation_def led_doOperation_def int16_def seg_clamp99_def)

text \<open>
  C8. In the binary-LED variant, for operands in \<open>0 .. 99\<close> and any operator code,
  \<^verbatim>\<open>doOperation\<close> returns \<open>- 1\<close> with a second operand \<open>0\<close> exactly when the operator is
  the division: the test \<^verbatim>\<open>result == -1 && num2 == 0\<close> of \<^verbatim>\<open>displayResult\<close> holds
  exactly on a division by zero.
\<close>

theorem led_error_test_exact:
  assumes "0 \<le> a" "a \<le> 99" "0 \<le> b" "b \<le> 99"
  shows "(fst (led_doOperation a b op s) = - 1 \<and> b = 0) = (op = 0xD \<and> b = 0)"
proof -
  have add: "int16 (a + b) = a + b" and sub: "int16 (a - b) = a - b"
    using assms(1-4) by (auto intro: int16_id)
  show ?thesis
    using assms product_bound [OF assms]
    by (auto simp: led_doOperation_def add sub MAX_INPUT_def Let_def int16_product [OF assms])
qed

theorem led_error_test_exact_witness:
  "fst (led_doOperation 5 0 0xD led_initial) = - 1
   \<and> fst (led_doOperation 1 0 0xB led_initial) = 1
   \<and> fst (led_doOperation 0 1 0xB led_initial) = - 1"
  using led_error_test_exact [of 5 0 "0xD" led_initial]
    led_error_test_exact [of 1 0 "0xB" led_initial]
  by (simp add: led_doOperation_def int16_def)

text \<open>
  C9. In the 7-segment variant \<^verbatim>\<open>doOperation\<close> returns a value in \<open>- 99 .. 99\<close> for
  every operator code and all operands: every path that computes a value ends in the
  final clamp, and the division by zero and the unknown operator codes return \<open>0\<close>.
\<close>

theorem seg_doOperation_range:
  "- 99 \<le> fst (seg_doOperation a b op s) \<and> fst (seg_doOperation a b op s) \<le> 99
   \<and> fst (seg_doOperation a 0 0xD s) = 0
   \<and> (op \<noteq> 0xA \<and> op \<noteq> 0xB \<and> op \<noteq> 0xC \<and> op \<noteq> 0xD \<longrightarrow> seg_doOperation a b op s = (0, s))"
  using seg_clamp99_range by (simp add: seg_doOperation_def)

theorem seg_doOperation_range_witness:
  "fst (seg_doOperation 32767 32767 0xC seg_initial) = 1
   \<and> fst (seg_doOperation (- 32768) (- 1) 0xD seg_initial) = - 99
   \<and> fst (seg_doOperation 300 (- 2) 0xC seg_initial) = - 99
   \<and> seg_doOperation 7 9 0x42 seg_initial = (0, seg_initial)"
  using seg_doOperation_range [of 7 9 "0x42" seg_initial]
  by (simp add: seg_doOperation_def int16_def seg_clamp99_def)

section \<open>The segment encoder\<close>

lemma length_operatorPatterns: "length operatorPatterns = 4"
  by (simp add: operatorPatterns_def)

lemma length_digitPatterns: "length digitPatterns = 12"
  by (simp add: digitPatterns_def)

lemma encodeDigit_value:
  "encodeDigit digit =
     Some (if 0xA \<le> digit \<and> digit \<le> 0xD then operatorPatterns ! nat (digit - 0xA)
           else if 0 \<le> digit \<and> digit \<le> 9 then digitPatterns ! nat digit
           else if digit = - 1 then PATTERN_MINUS
           else PATTERN_BLANK)"
  by (simp add: encodeDigit_def array_read_def int16_id length_operatorPatterns
      length_digitPatterns)

lemma displayDigit_eq:
  "displayDigit digit position dp s =
     s\<lparr>out := out s @
        [LATA 0,
         LATD (if dp then the (encodeDigit digit) OR SEG_DP else the (encodeDigit digit)),
         LATA (if position = 0 then 1 else 2)]\<rparr>"
  by (simp add: displayDigit_def encodeDigit_value set_LATA_def set_LATD_def
      set_LATD_read_def TENS_DIGIT_PIN_def UNITS_DIGIT_PIN_def Let_def)

text \<open>
  C10. \<^verbatim>\<open>encodeDigit\<close> reads \<^verbatim>\<open>operatorPatterns\<close> only for a digit in
  \<open>0xA .. 0xD\<close> and \<^verbatim>\<open>digitPatterns\<close> only for a digit in \<open>0 .. 9\<close>, in both cases
  inside the table, returns the minus pattern for \<open>- 1\<close> and the blank pattern for every
  other value; so \<^verbatim>\<open>displayDigit\<close> writes a defined segment pattern for every input,
  and no read outside an array is recorded.
\<close>

theorem encodeDigit_total:
  "encodeDigit digit =
     Some (if 0xA \<le> digit \<and> digit \<le> 0xD then operatorPatterns ! nat (digit - 0xA)
           else if 0 \<le> digit \<and> digit \<le> 9 then digitPatterns ! nat digit
           else if digit = - 1 then PATTERN_MINUS
           else PATTERN_BLANK)
   \<and> (if 0xA \<le> digit \<and> digit \<le> 0xD then nat (digit - 0xA) < length operatorPatterns
       else if 0 \<le> digit \<and> digit \<le> 9 then nat digit < length digitPatterns
       else True)
   \<and> fault (displayDigit digit position dp s) = fault s
   \<and> out (displayDigit digit position dp s) =
       out s @
       [LATA 0,
        LATD (if dp then the (encodeDigit digit) OR SEG_DP else the (encodeDigit digit)),
        LATA (if position = 0 then 1 else 2)]"
  by (auto simp add: encodeDigit_value displayDigit_eq length_operatorPatterns
      length_digitPatterns)

section \<open>The effects of the display routines\<close>

lemma repeat_numeral:
  "repeat (numeral k) body s = repeat (pred_numeral k) body (body s)"
  by (simp add: numeral_eq_Suc)

lemma repeat_append:
  fixes s :: "'a calc_state_scheme"
  assumes "\<And>s :: 'a calc_state_scheme. body s = s\<lparr>out := out s @ evs\<rparr>"
  shows "repeat k body s = s\<lparr>out := out s @ concat (replicate k evs)\<rparr>"
proof (induction k arbitrary: s)
  case 0
  show ?case by simp
next
  case (Suc k)
  have "repeat (Suc k) body s = repeat k body (body s)" by simp
  also have "\<dots> = (body s)\<lparr>out := out (body s) @ concat (replicate k evs)\<rparr>"
    by (rule Suc.IH)
  also have "\<dots> = s\<lparr>out := out s @ concat (replicate (Suc k) evs)\<rparr>"
    by (simp add: assms [of s])
  finally show ?case .
qed

lemma led_blinkLED_eq:
  "led_blinkLED pattern count delay_ms s =
     s\<lparr>out := out s @ concat (replicate (nat count) [LATD pattern, LATD 0])\<rparr>"
  unfolding led_blinkLED_def
  by (rule repeat_append) (simp add: set_LATD_def)

lemma led_resetCalculator_eq:
  "led_resetCalculator s =
     s\<lparr>num1 := 0, num2 := 0, operator := 0, waitingForHashKey := False,
       validInput := False, out := out s @ [LATD 0]\<rparr>"
  by (simp add: led_resetCalculator_def set_LATD_def)

lemma displayNumber_eq:
  "displayNumber n s = s\<lparr>out := out s @ events_of (displayNumber n)\<rparr>"
  by (simp add: displayNumber_def events_of_def displayDigit_eq Let_def seg_initial_def)

lemma refreshDisplay_eq:
  "refreshDisplay n s =
     s\<lparr>currentDisplayValue := n, isDisplayNegative := (n < 0),
       out := out s @ concat (replicate 30 (events_of (displayNumber n)))\<rparr>"
  unfolding refreshDisplay_def
  by (subst repeat_append [where evs = "events_of (displayNumber n)"])
     (simp_all add: displayNumber_eq [symmetric])

lemma show_operator_body_eq:
  "displayNumber n (displayDigit 11 1 False (displayDigit c 0 False s)) =
     s\<lparr>out := out s @
        events_of (\<lambda>s. displayNumber n (displayDigit 11 1 False (displayDigit c 0 False s)))\<rparr>"
  by (simp add: displayNumber_def events_of_def displayDigit_eq Let_def seg_initial_def)

lemma seg_show_operator_eq:
  "seg_show_operator c n s =
     s\<lparr>out := out s @ concat (replicate 10
        (events_of (\<lambda>s. displayNumber n (displayDigit 11 1 False (displayDigit c 0 False s)))))\<rparr>"
  unfolding seg_show_operator_def
  by (rule repeat_append) (rule show_operator_body_eq)

lemma operator_only_body_eq:
  "displayDigit 11 1 False (displayDigit c 0 False s) =
     s\<lparr>out := out s @
        events_of (\<lambda>s. displayDigit 11 1 False (displayDigit c 0 False s))\<rparr>"
  by (simp add: events_of_def displayDigit_eq seg_initial_def)

lemma updateDisplay_eq:
  "updateDisplay val mode s =
    (if previousMode s = DISPLAY_NUM1 \<and> mode = DISPLAY_OPERATOR then
       s\<lparr>displayMode := mode, previousMode := mode,
         out := out s @ concat (replicate 10
           (events_of (\<lambda>u. displayNumber (currentDisplayValue s)
              (displayDigit 11 1 False (displayDigit val 0 False u)))))\<rparr>
     else if mode = DISPLAY_NUM1 \<or> mode = DISPLAY_NUM2 \<or> mode = DISPLAY_RESULT then
       s\<lparr>displayMode := mode, previousMode := mode, currentDisplayValue := val,
         isDisplayNegative := (val < 0),
         out := out s @ concat (replicate 30 (events_of (displayNumber val)))\<rparr>
     else if mode = DISPLAY_OPERATOR then
       s\<lparr>displayMode := mode, previousMode := mode,
         out := out s @ concat (replicate 10
           (events_of (\<lambda>s. displayDigit 11 1 False (displayDigit val 0 False s))))\<rparr>
     else
       s\<lparr>displayMode := mode, previousMode := mode, currentDisplayValue := 0,
         isDisplayNegative := False,
         out := out s @ concat (replicate 30 (events_of (displayNumber 0)))\<rparr>)"
proof -
  have A: "repeat 10 (\<lambda>u. displayNumber n (displayDigit 11 1 False (displayDigit val 0 False u))) t =
      t\<lparr>out := out t @ concat (replicate 10
        (events_of (\<lambda>u. displayNumber n (displayDigit 11 1 False (displayDigit val 0 False u)))))\<rparr>"
    for n and t :: seg_state
    by (rule repeat_append) (rule show_operator_body_eq)
  have B: "repeat 10 (\<lambda>u. displayDigit 11 1 False (displayDigit val 0 False u)) t =
      t\<lparr>out := out t @ concat (replicate 10
        (events_of (\<lambda>u. displayDigit 11 1 False (displayDigit val 0 False u))))\<rparr>"
    for t :: seg_state
    by (rule repeat_append) (rule operator_only_body_eq)
  show ?thesis
    by (simp add: updateDisplay_def Let_def A B refreshDisplay_eq)
qed


lemma seg_resetCalculator_eq:
  "seg_resetCalculator s =
     s\<lparr>num1 := 0, num2 := 0, operator := 0, waitingForHashKey := False,
       validInput := False, displayMode := DISPLAY_RESET, previousMode := DISPLAY_RESET,
       currentDisplayValue := 0, isDisplayNegative := False,
       out := out s @ concat (replicate 30 (events_of (displayNumber 0)))\<rparr>"
  by (simp add: seg_resetCalculator_def updateDisplay_eq DISPLAY_RESET_def DISPLAY_NUM1_def
      DISPLAY_NUM2_def DISPLAY_OPERATOR_def DISPLAY_RESULT_def)

lemma seg_show_error_eq:
  "seg_show_error s =
     s\<lparr>out := out s @ concat (replicate 5
        [LATA 1, LATD PATTERN_E, LATA 2, LATD (digitPatterns ! 0), LATA 0, LATD 0])\<rparr>"
  unfolding seg_show_error_def
  by (rule repeat_append)
     (simp add: set_LATA_def set_LATD_def set_LATD_read_def array_read_def
        length_digitPatterns TENS_DIGIT_PIN_def UNITS_DIGIT_PIN_def)

section \<open>Entering an operand\<close>

lemma digit_key:
  fixes d :: byte
  assumes "d \<le> 9"
  shows "d \<noteq> 0xFF" "d \<noteq> 0xE" "d \<noteq> 0xF" "\<not> (0xA \<le> d \<and> d \<le> 0xD)" "0 \<le> uint d" "uint d \<le> 9"
  using assms by (auto simp: word_le_def)

lemma operator_key:
  fixes k :: byte
  assumes "0xA \<le> k" "k \<le> 0xD"
  shows "k \<noteq> 0xFF" "k \<noteq> 0xE" "k \<noteq> 0xF" "\<not> k \<le> 9" "0xA \<le> uint k" "uint k \<le> 0xD"
  using assms by (auto simp: word_le_def)

lemma led_getNum1_first_skip:
  "led_getNum1_first (replicate m 0xFF @ k # ks) s = led_getNum1_first (k # ks) s"
  by (induction m arbitrary: s) (simp_all add: Let_def)

lemma led_getNum1_second_skip:
  "led_getNum1_second (replicate m 0xFF @ k # ks) s = led_getNum1_second (k # ks) s"
  by (induction m arbitrary: s) (simp_all add: Let_def)

lemma two_digit_value:
  fixes d1 d2 :: byte
  assumes "d1 \<le> 9" "d2 \<le> 9"
  shows "int16 (int16 (uint d1 * 10) + uint d2) = 10 * uint d1 + uint d2"
    and "\<not> 10 * uint d1 + uint d2 > 99"
    and "min (10 * uint d1 + uint d2) 99 = 10 * uint d1 + uint d2"
  using digit_key(5,6) [OF assms(1)] digit_key(5,6) [OF assms(2)]
  by (simp_all add: int16_def)

lemma led_getNum1_two_digits:
  assumes "d1 \<le> 9" "d2 \<le> 9"
  shows "\<exists>s'. led_getNum1 (replicate m 0xFF @ d1 # replicate n 0xFF @ d2 # ks) s
             = Returned (min (10 * uint d1 + uint d2) 99) s' ks
           \<and> num1 s' = min (10 * uint d1 + uint d2) 99"
  using assms digit_key [OF assms(1)] digit_key [OF assms(2)] two_digit_value [OF assms]
  by (simp add: led_getNum1_def led_getNum1_first_skip led_getNum1_second_skip Let_def
      set_LATD_def MAX_INPUT_def)


lemma led_getNum2_first_skip:
  "led_getNum2_first (replicate m 0xFF @ k # ks) s = led_getNum2_first (k # ks) s"
  by (induction m arbitrary: s) (simp_all add: Let_def)

lemma led_getNum2_second_skip:
  "led_getNum2_second (replicate m 0xFF @ k # ks) s = led_getNum2_second (k # ks) s"
  by (induction m arbitrary: s) (simp_all add: Let_def)

lemma seg_getNum1_first_skip:
  "seg_getNum1_first (replicate m 0xFF @ k # ks) s = seg_getNum1_first (k # ks) s"
  by (induction m arbitrary: s) (simp_all add: Let_def)

lemma seg_getNum1_second_skip:
  "seg_getNum1_second (replicate m 0xFF @ k # ks) s = seg_getNum1_second (k # ks) s"
  by (induction m arbitrary: s) (simp_all add: Let_def)

lemma seg_getNum2_first_skip:
  "seg_getNum2_first (replicate m 0xFF @ k # ks) s = seg_getNum2_first (k # ks) s"
  by (induction m arbitrary: s) (simp_all add: Let_def)

lemma seg_getNum2_second_skip:
  "seg_getNum2_second (replicate m 0xFF @ k # ks) s = seg_getNum2_second (k # ks) s"
  by (induction m arbitrary: s) (simp_all add: Let_def)

lemma led_getOperator_loop_skip:
  "led_getOperator_loop (replicate m 0xFF @ k # ks) s = led_getOperator_loop (k # ks) s"
  by (induction m arbitrary: s) (simp_all add: Let_def)

lemma seg_getOperator_loop_skip:
  "seg_getOperator_loop v (replicate m 0xFF @ k # ks) s =
     seg_getOperator_loop v (k # ks)
       (s\<lparr>out := out s @ concat (replicate m
          (events_of (displayNumber v) @ events_of (displayNumber v)))\<rparr>)"
proof -
  define E where "E = events_of (displayNumber v)"
  have dn: "displayNumber v u = u\<lparr>out := out u @ E\<rparr>" for u :: seg_state
    unfolding E_def by (rule displayNumber_eq)
  have "seg_getOperator_loop v (replicate m 0xFF @ k # ks) s =
     seg_getOperator_loop v (k # ks) (s\<lparr>out := out s @ concat (replicate m (E @ E))\<rparr>)"
  proof (induction m arbitrary: s)
    case 0
    show ?case by simp
  next
    case (Suc m)
    show ?case
      by (cases s) (simp add: Suc.IH Let_def dn)
  qed
  then show ?thesis
    by (simp add: E_def)
qed

lemmas DISPLAY_defs = DISPLAY_RESET_def DISPLAY_NUM1_def DISPLAY_NUM2_def
  DISPLAY_OPERATOR_def DISPLAY_RESULT_def

lemma led_getNum2_two_digits:
  assumes "d1 \<le> 9" "d2 \<le> 9"
  shows "\<exists>s'. led_getNum2 (replicate m 0xFF @ d1 # replicate n 0xFF @ d2 # ks) s
             = Returned (min (10 * uint d1 + uint d2) 99) s' ks
           \<and> num2 s' = min (10 * uint d1 + uint d2) 99"
  using assms digit_key [OF assms(1)] digit_key [OF assms(2)] two_digit_value [OF assms]
  by (simp add: led_getNum2_def led_getNum2_first_skip led_getNum2_second_skip Let_def
      set_LATD_def MAX_INPUT_def)

lemma seg_getNum1_two_digits:
  assumes "d1 \<le> 9" "d2 \<le> 9"
  shows "\<exists>s'. seg_getNum1 (replicate m 0xFF @ d1 # replicate n 0xFF @ d2 # ks) s
             = Returned (min (10 * uint d1 + uint d2) 99) s' ks
           \<and> num1 s' = min (10 * uint d1 + uint d2) 99"
  using assms digit_key [OF assms(1)] digit_key [OF assms(2)] two_digit_value [OF assms]
  by (simp add: seg_getNum1_def seg_getNum1_first_skip seg_getNum1_second_skip Let_def
      updateDisplay_eq DISPLAY_defs MAX_INPUT_def)

lemma seg_getNum2_two_digits:
  assumes "d1 \<le> 9" "d2 \<le> 9"
  shows "\<exists>s'. seg_getNum2 (replicate m 0xFF @ d1 # replicate n 0xFF @ d2 # ks) s
             = Returned (min (10 * uint d1 + uint d2) 99) s' ks
           \<and> num2 s' = min (10 * uint d1 + uint d2) 99"
  using assms digit_key [OF assms(1)] digit_key [OF assms(2)] two_digit_value [OF assms]
  by (simp add: seg_getNum2_def seg_getNum2_first_skip seg_getNum2_second_skip Let_def
      updateDisplay_eq DISPLAY_defs MAX_INPUT_def)

text \<open>
  C4. In \<^verbatim>\<open>getNum1\<close> and \<^verbatim>\<open>getNum2\<close> of both variants, two digit keys \<open>d1\<close>,
  \<open>d2\<close> entered one after the other (with any number of scans without a key before
  each) return the operand \<open>10 * d1 + d2\<close> clamped to at most \<open>99\<close>, and store it in
  \<^verbatim>\<open>num1\<close> or \<^verbatim>\<open>num2\<close>.
\<close>

theorem two_digit_operand:
  assumes "d1 \<le> 9" "d2 \<le> 9"
  shows "returned (led_getNum1 (replicate m 0xFF @ d1 # replicate n 0xFF @ d2 # ks) s)
           = Some (min (10 * uint d1 + uint d2) 99, ks)
       \<and> num1 (state_of (led_getNum1 (replicate m 0xFF @ d1 # replicate n 0xFF @ d2 # ks) s))
           = min (10 * uint d1 + uint d2) 99
       \<and> returned (led_getNum2 (replicate m 0xFF @ d1 # replicate n 0xFF @ d2 # ks) s)
           = Some (min (10 * uint d1 + uint d2) 99, ks)
       \<and> num2 (state_of (led_getNum2 (replicate m 0xFF @ d1 # replicate n 0xFF @ d2 # ks) s))
           = min (10 * uint d1 + uint d2) 99
       \<and> returned (seg_getNum1 (replicate m 0xFF @ d1 # replicate n 0xFF @ d2 # ks) t)
           = Some (min (10 * uint d1 + uint d2) 99, ks)
       \<and> num1 (state_of (seg_getNum1 (replicate m 0xFF @ d1 # replicate n 0xFF @ d2 # ks) t))
           = min (10 * uint d1 + uint d2) 99
       \<and> returned (seg_getNum2 (replicate m 0xFF @ d1 # replicate n 0xFF @ d2 # ks) t)
           = Some (min (10 * uint d1 + uint d2) 99, ks)
       \<and> num2 (state_of (seg_getNum2 (replicate m 0xFF @ d1 # replicate n 0xFF @ d2 # ks) t))
           = min (10 * uint d1 + uint d2) 99"
proof -
  obtain s1 where "led_getNum1 (replicate m 0xFF @ d1 # replicate n 0xFF @ d2 # ks) s
      = Returned (min (10 * uint d1 + uint d2) 99) s1 ks"
    "num1 s1 = min (10 * uint d1 + uint d2) 99"
    using led_getNum1_two_digits [OF assms] by blast
  moreover obtain s2 where "led_getNum2 (replicate m 0xFF @ d1 # replicate n 0xFF @ d2 # ks) s
      = Returned (min (10 * uint d1 + uint d2) 99) s2 ks"
    "num2 s2 = min (10 * uint d1 + uint d2) 99"
    using led_getNum2_two_digits [OF assms] by blast
  moreover obtain t1 where "seg_getNum1 (replicate m 0xFF @ d1 # replicate n 0xFF @ d2 # ks) t
      = Returned (min (10 * uint d1 + uint d2) 99) t1 ks"
    "num1 t1 = min (10 * uint d1 + uint d2) 99"
    using seg_getNum1_two_digits [OF assms] by blast
  moreover obtain t2 where "seg_getNum2 (replicate m 0xFF @ d1 # replicate n 0xFF @ d2 # ks) t
      = Returned (min (10 * uint d1 + uint d2) 99) t2 ks"
    "num2 t2 = min (10 * uint d1 + uint d2) 99"
    using seg_getNum2_two_digits [OF assms] by blast
  ultimately show ?thesis
    by (simp add: returned_def state_of_def)
qed

theorem two_digit_operand_witness:
  "returned (led_getNum1 [0xFF, 4, 0xFF, 0xFF, 2, 0xF] led_initial) = Some (42, [0xF])
   \<and> num1 (state_of (led_getNum1 [0xFF, 4, 0xFF, 0xFF, 2, 0xF] led_initial)) = 42
   \<and> returned (led_getNum2 [0xFF, 4, 0xFF, 0xFF, 2, 0xF] led_initial) = Some (42, [0xF])
   \<and> num2 (state_of (seg_getNum2 [0xFF, 4, 0xFF, 0xFF, 2, 0xF] seg_initial)) = 42
   \<and> returned (seg_getNum1 [0xFF, 4, 0xFF, 0xFF, 2, 0xF] seg_initial) = Some (42, [0xF])"
  using two_digit_operand [of 4 2 "Suc 0" "Suc (Suc 0)" "[0xF]" led_initial seg_initial]
  by simp


section \<open>Waiting for confirm, the result and the reset\<close>

lemma state_of_simps [simp]:
  "state_of (Waiting w s) = s" "state_of (Returned v s ks) = s"
  by (simp_all add: state_of_def)

lemma waiting_at_simps [simp]:
  "waiting_at (Waiting w s) = Some w" "waiting_at (Returned v s ks) = None"
  by (simp_all add: waiting_at_def)

lemma returned_simps [simp]:
  "returned (Waiting w s) = None" "returned (Returned v s ks) = Some (v, ks)"
  by (simp_all add: returned_def)

lemma led_hold_until_reset_waits:
  "0xE \<notin> set ks \<Longrightarrow>
   led_hold_until_reset w ks s = Waiting w (if ks = [] then s else s\<lparr>keyVal := last ks\<rparr>)"
  by (induction ks arbitrary: s) (auto simp: Let_def)

lemma led_hold_until_reset_reset:
  "0xE \<notin> set ks \<Longrightarrow>
   led_hold_until_reset w (ks @ 0xE # rest) s =
     Returned () (led_resetCalculator (s\<lparr>keyVal := 0xE\<rparr>)) rest"
  by (induction ks arbitrary: s) (auto simp: Let_def)

lemma led_displayResult_wait_waits:
  "0xF \<notin> set ks \<Longrightarrow> 0xE \<notin> set ks \<Longrightarrow>
   led_displayResult_wait ks s =
     Waiting In_displayResult_confirm (if ks = [] then s else s\<lparr>keyVal := last ks\<rparr>)"
  by (induction ks arbitrary: s) (auto simp: Let_def)

lemma led_displayResult_wait_hash:
  "0xF \<notin> set ks \<Longrightarrow> 0xE \<notin> set ks \<Longrightarrow>
   led_displayResult_wait (ks @ 0xF # rest) s = led_displayResult_hash rest (s\<lparr>keyVal := 0xF\<rparr>)"
  by (induction ks arbitrary: s) (auto simp: Let_def)

lemma led_displayResult_wait_reset:
  "0xF \<notin> set ks \<Longrightarrow> 0xE \<notin> set ks \<Longrightarrow>
   led_displayResult_wait (ks @ 0xE # rest) s =
     Returned () (led_blinkLED 0x01 5 200 (led_resetCalculator (s\<lparr>keyVal := 0xE\<rparr>))) rest"
  by (induction ks arbitrary: s) (auto simp: Let_def)

lemma seg_hold_until_reset_waits:
  "0xE \<notin> set ks \<Longrightarrow>
   seg_hold_until_reset w ks s = Waiting w (if ks = [] then s else s\<lparr>keyVal := last ks\<rparr>)"
  by (induction ks arbitrary: s) (auto simp: Let_def)

lemma seg_hold_until_reset_reset:
  "0xE \<notin> set ks \<Longrightarrow>
   seg_hold_until_reset w (ks @ 0xE # rest) s =
     Returned () (seg_resetCalculator (s\<lparr>keyVal := 0xE\<rparr>)) rest"
  by (induction ks arbitrary: s) (auto simp: Let_def)

lemma seg_displayResult_wait_waits:
  "0xF \<notin> set ks \<Longrightarrow> 0xE \<notin> set ks \<Longrightarrow>
   seg_displayResult_wait ks s =
     Waiting In_displayResult_confirm (if ks = [] then s else s\<lparr>keyVal := last ks\<rparr>)"
  by (induction ks arbitrary: s) (auto simp: Let_def)

lemma seg_displayResult_wait_hash:
  "0xF \<notin> set ks \<Longrightarrow> 0xE \<notin> set ks \<Longrightarrow>
   seg_displayResult_wait (ks @ 0xF # rest) s = seg_displayResult_hash rest (s\<lparr>keyVal := 0xF\<rparr>)"
  by (induction ks arbitrary: s) (auto simp: Let_def)

lemma seg_displayResult_wait_reset:
  "0xF \<notin> set ks \<Longrightarrow> 0xE \<notin> set ks \<Longrightarrow>
   seg_displayResult_wait (ks @ 0xE # rest) s =
     Returned () (seg_resetCalculator (s\<lparr>keyVal := 0xE\<rparr>)) rest"
  by (induction ks arbitrary: s) (auto simp: Let_def)

lemma led_blink_loop_result:
  "result (state_of (led_blink_loop n c b ks s)) = result s"
  by (induction ks arbitrary: s c b)
     (auto simp: Let_def led_blink_write_def set_LATD_def led_resetCalculator_eq)

lemma led_hold_until_reset_result:
  "result (state_of (led_hold_until_reset w ks s)) = result s"
  by (induction ks arbitrary: s)
     (auto simp: Let_def led_resetCalculator_eq)


lemma seg_hold_until_reset_result:
  "result (state_of (seg_hold_until_reset w ks s)) = result s"
  by (induction ks arbitrary: s)
     (auto simp: Let_def seg_resetCalculator_eq)

lemma seg_announce_wait_eq:
  "seg_announce_wait s =
     s\<lparr>currentDisplayValue := num2 s, isDisplayNegative := (num2 s < 0),
       out := out s
         @ [LATA 0, LATD 0] @ concat (replicate 30 (events_of (displayNumber (num2 s))))
         @ [LATA 0, LATD 0] @ concat (replicate 30 (events_of (displayNumber (num2 s))))
         @ [LATA 0, LATD 0] @ concat (replicate 30 (events_of (displayNumber (num2 s))))\<rparr>"
  by (simp add: seg_announce_wait_def repeat_numeral refreshDisplay_eq set_LATA_def set_LATD_def)

lemma led_doOperation_eq:
  "led_doOperation a b op s =
     (fst (led_doOperation a b op led_initial),
      if op = 0xD \<and> b = 0 then led_blinkLED 0xFF 5 200 s else s)"
  by (simp add: led_doOperation_def Let_def)

lemma seg_doOperation_eq:
  "seg_doOperation a b op s =
     (fst (seg_doOperation a b op seg_initial),
      if op = 0xD \<and> b = 0 then seg_show_error s else s)"
  by (simp add: seg_doOperation_def Let_def)

lemma and_then_result:
  assumes "\<And>v s' ks'. result (state_of (f v s' ks')) = result s'"
  shows "result (state_of (and_then m f)) = result (state_of m)"
  by (cases m) (simp_all add: and_then_def assms)

lemma led_displayBinaryWithBlink_result:
  "result (state_of (led_displayBinaryWithBlink n ks s)) = result s"
  by (simp add: led_displayBinaryWithBlink_def led_blink_loop_result Let_def
      led_displayBinary_def set_LATD_def)

lemma led_displayResult_hash_result:
  "result (state_of (led_displayResult_hash ks s)) =
     fst (led_doOperation (num1 s) (num2 s) (operator s) led_initial)"
proof -
  obtain r s1 where d: "led_doOperation (num1 s) (num2 s) (operator s) s = (r, s1)"
    by fastforce
  have r: "r = fst (led_doOperation (num1 s) (num2 s) (operator s) led_initial)"
    using d by (subst (asm) led_doOperation_eq) simp
  have k: "result (state_of (if 0 \<le> result s' then led_hold_until_reset w ks' s'
              else Returned () s' ks')) = result s'" for w ks' s'
    by (simp add: led_hold_until_reset_result)
  show ?thesis
    unfolding led_displayResult_hash_def d r [symmetric]
    by (simp add: Let_def and_then_result k led_hold_until_reset_result
        led_displayBinaryWithBlink_result set_LATD_def)
qed

lemma seg_displayResult_hash_result:
  "result (state_of (seg_displayResult_hash ks s)) =
     fst (seg_doOperation (num1 s) (num2 s) (operator s) seg_initial)"
  by (subst seg_displayResult_hash_def, subst seg_doOperation_eq)
     (simp add: Let_def seg_hold_until_reset_result updateDisplay_eq seg_show_error_eq)


lemmas led_defs = led_main_body_def led_getNum1_def led_getOperator_def led_getNum2_def
  led_displayResult_def led_displayResult_hash_def led_displayBinaryWithBlink_def
  led_displayBinary_def led_doOperation_def led_blinkLED_eq led_resetCalculator_eq
  led_blink_write_def led_blink_state_def led_blink_counter_def BLINK_RATE_def
  and_then_def set_LATD_def Let_def MAX_INPUT_def led_initial_def

lemmas seg_defs = seg_main_body_def seg_getNum1_def seg_getOperator_def seg_getNum2_def
  seg_displayResult_def seg_displayResult_hash_def seg_doOperation_def seg_clamp99_def
  seg_resetCalculator_eq updateDisplay_eq seg_show_operator_eq seg_show_error_eq
  seg_announce_wait_eq displayNumber_eq
  and_then_def set_LATD_def set_LATA_def Let_def MAX_INPUT_def DISPLAY_defs seg_initial_def


text \<open>
  C7, as the code has it. \<^verbatim>\<open>displayResult\<close> of both variants waits for the key \<open>#\<close>
  or \<open>*\<close> in every case, also when a \<open>#\<close> has ended the entry of the second operand:
  as long as neither key arrives it stays in its loop, \<^verbatim>\<open>result\<close> is not computed and
  nothing but the announcement is written to the display; the next \<open>#\<close> computes the
  result from \<^verbatim>\<open>num1\<close>, \<^verbatim>\<open>num2\<close> and \<^verbatim>\<open>operator\<close>, the next \<open>*\<close> returns. The
  announcement (the LED D4 blinking three times; the 7-segment display blanked three
  times) is written first exactly when the flag \<^verbatim>\<open>waitingForHashKey\<close> is not set on
  entry.
\<close>

theorem confirm_always_awaited:
  assumes "0xF \<notin> set ks" "0xE \<notin> set ks"
  shows "waiting_at (led_displayResult ks s) = Some In_displayResult_confirm
     \<and> result (state_of (led_displayResult ks s)) = result s
     \<and> out (state_of (led_displayResult ks s)) =
         out s @ (if waitingForHashKey s then []
                  else [LATD 0x08, LATD 0, LATD 0x08, LATD 0, LATD 0x08, LATD 0])
     \<and> result (state_of (led_displayResult (ks @ 0xF # rest) s)) =
         fst (led_doOperation (num1 s) (num2 s) (operator s) led_initial)
     \<and> returned (led_displayResult (ks @ 0xE # rest) s) = Some ((), rest)
     \<and> waiting_at (seg_displayResult ks t) = Some In_displayResult_confirm
     \<and> result (state_of (seg_displayResult ks t)) = result t
     \<and> out (state_of (seg_displayResult ks t)) =
         out t @ (if waitingForHashKey t then []
                  else [LATA 0, LATD 0]
                    @ concat (replicate 30 (events_of (displayNumber (num2 t))))
                    @ [LATA 0, LATD 0]
                    @ concat (replicate 30 (events_of (displayNumber (num2 t))))
                    @ [LATA 0, LATD 0]
                    @ concat (replicate 30 (events_of (displayNumber (num2 t)))))
     \<and> result (state_of (seg_displayResult (ks @ 0xF # rest) t)) =
         fst (seg_doOperation (num1 t) (num2 t) (operator t) seg_initial)
     \<and> returned (seg_displayResult (ks @ 0xE # rest) t) = Some ((), rest)"
proof -
  have led: "waiting_at (led_displayResult ks s) = Some In_displayResult_confirm"
    "result (state_of (led_displayResult ks s)) = result s"
    "out (state_of (led_displayResult ks s)) =
       out s @ (if waitingForHashKey s then []
                else [LATD 0x08, LATD 0, LATD 0x08, LATD 0, LATD 0x08, LATD 0])"
    by (simp_all add: led_displayResult_def led_displayResult_wait_waits [OF assms]
        led_blinkLED_eq numeral_3_eq_3)
  have led2: "result (state_of (led_displayResult (ks @ 0xF # rest) s)) =
       fst (led_doOperation (num1 s) (num2 s) (operator s) led_initial)"
    "returned (led_displayResult (ks @ 0xE # rest) s) = Some ((), rest)"
    by (simp_all add: led_displayResult_def led_displayResult_wait_hash [OF assms]
        led_displayResult_wait_reset [OF assms] led_displayResult_hash_result led_blinkLED_eq)
  have seg: "waiting_at (seg_displayResult ks t) = Some In_displayResult_confirm"
    "result (state_of (seg_displayResult ks t)) = result t"
    "out (state_of (seg_displayResult ks t)) =
         out t @ (if waitingForHashKey t then []
                  else [LATA 0, LATD 0]
                    @ concat (replicate 30 (events_of (displayNumber (num2 t))))
                    @ [LATA 0, LATD 0]
                    @ concat (replicate 30 (events_of (displayNumber (num2 t))))
                    @ [LATA 0, LATD 0]
                    @ concat (replicate 30 (events_of (displayNumber (num2 t)))))"
    by (simp_all add: seg_displayResult_def seg_displayResult_wait_waits [OF assms]
        seg_announce_wait_eq)
  have seg2: "result (state_of (seg_displayResult (ks @ 0xF # rest) t)) =
         fst (seg_doOperation (num1 t) (num2 t) (operator t) seg_initial)"
    "returned (seg_displayResult (ks @ 0xE # rest) t) = Some ((), rest)"
    by (simp_all add: seg_displayResult_def seg_displayResult_wait_hash [OF assms]
        seg_displayResult_wait_reset [OF assms] seg_displayResult_hash_result
        seg_announce_wait_eq)
  show ?thesis
    using led led2 seg seg2 by (intro conjI)
qed

theorem confirm_always_awaited_witness:
  "waiting_at (led_displayResult [0xFF, 3] led_initial) = Some In_displayResult_confirm
   \<and> out (state_of (led_displayResult [0xFF, 3] led_initial)) =
       [LATD 0x08, LATD 0, LATD 0x08, LATD 0, LATD 0x08, LATD 0]
   \<and> result (state_of (led_displayResult [0xFF, 3, 0xF] (led_initial\<lparr>num1 := 7, num2 := 3, operator := 0xA\<rparr>))) = 10
   \<and> returned (seg_displayResult [0xFF, 3, 0xE] seg_initial) = Some ((), [])"
  using confirm_always_awaited [of "[0xFF, 3]" led_initial "[]" seg_initial]
    confirm_always_awaited [of "[0xFF, 3]" "led_initial\<lparr>num1 := 7, num2 := 3, operator := 0xA\<rparr>" "[]" seg_initial]
  by (simp add: led_initial_def led_doOperation_def int16_def)

text \<open>
  C7 as stated fails. After the keys 7, A, 3, \<open>#\<close> the confirm key has been consumed
  by \<^verbatim>\<open>getNum2\<close>, and both variants still wait for \<open>#\<close> with no result computed (a
  second \<open>#\<close> gives 10). After the keys 7, A, 3, 4 no confirm key has been consumed, and
  the binary-LED variant waits for \<open>#\<close> without having blinked D4 (\<open>LATD 0x08\<close>):
  \<^verbatim>\<open>getNum2\<close> sets \<^verbatim>\<open>waitingForHashKey\<close> on both of its regular returns.
\<close>

theorem confirm_awaited_again_counterexample:
  "waiting_at (led_main_body [7, 0xA, 3, 0xF] led_initial) = Some In_displayResult_confirm
   \<and> result (state_of (led_main_body [7, 0xA, 3, 0xF] led_initial)) = 0
   \<and> waiting_at (led_main_body [7, 0xA, 3, 0xF, 0xF] led_initial) = Some In_displayResult_result
   \<and> result (state_of (led_main_body [7, 0xA, 3, 0xF, 0xF] led_initial)) = 10
   \<and> waiting_at (seg_main_body [7, 0xA, 3, 0xF] seg_initial) = Some In_displayResult_confirm
   \<and> result (state_of (seg_main_body [7, 0xA, 3, 0xF] seg_initial)) = 0
   \<and> waiting_at (led_main_body [7, 0xA, 3, 4] led_initial) = Some In_displayResult_confirm
   \<and> out (state_of (led_main_body [7, 0xA, 3, 4] led_initial)) =
       [LATD 0, LATD 0, LATD 1, LATD 1, LATD 4, LATD 2, LATD 2, LATD 2, LATD 2]"
  by (simp add: led_defs seg_defs int16_def)


text \<open>
  C1, as the code has it. When \<open>#\<close> is confirmed with the operator D and a second
  operand \<open>0\<close>, both variants show an error indication (all eight LEDs blink five times;
  \<open>E\<close> and \<open>0\<close> flash five times), and both then stay in a loop that only the key \<open>*\<close>
  leaves. The binary-LED variant returns \<open>- 1\<close>, clears the LEDs and shows no number.
  The 7-segment variant returns \<open>0\<close>, stores it in \<^verbatim>\<open>result\<close> and displays it with
  \<^verbatim>\<open>updateDisplay(result, DISPLAY_RESULT)\<close>.
\<close>

theorem division_by_zero:
  assumes "0xE \<notin> set ks" "num2 s = 0" "operator s = 0xD" "num2 t = 0" "operator t = 0xD"
  shows "led_doOperation a 0 0xD s =
           (- 1, s\<lparr>out := out s @ concat (replicate 5 [LATD 0xFF, LATD 0])\<rparr>)
     \<and> waiting_at (led_displayResult_hash ks s) = Some In_displayResult_error
     \<and> result (state_of (led_displayResult_hash ks s)) = - 1
     \<and> out (state_of (led_displayResult_hash ks s)) =
         out s @ concat (replicate 5 [LATD 0xFF, LATD 0]) @ [LATD 0]
     \<and> returned (led_displayResult_hash (ks @ 0xE # rest) s) = Some ((), rest)
     \<and> seg_doOperation a 0 0xD t =
           (0, t\<lparr>out := out t @ concat (replicate 5
                 [LATA 1, LATD PATTERN_E, LATA 2, LATD (digitPatterns ! 0), LATA 0, LATD 0])\<rparr>)
     \<and> waiting_at (seg_displayResult_hash ks t) = Some In_displayResult_result
     \<and> result (state_of (seg_displayResult_hash ks t)) = 0
     \<and> currentDisplayValue (state_of (seg_displayResult_hash ks t)) = 0
     \<and> out (state_of (seg_displayResult_hash ks t)) =
         out t
         @ concat (replicate 5
             [LATA 1, LATD PATTERN_E, LATA 2, LATD (digitPatterns ! 0), LATA 0, LATD 0])
         @ concat (replicate 30 (events_of (displayNumber 0)))
     \<and> returned (seg_displayResult_hash (ks @ 0xE # rest) t) = Some ((), rest)"
proof -
  have led: "led_doOperation a 0 0xD s =
           (- 1, s\<lparr>out := out s @ concat (replicate 5 [LATD 0xFF, LATD 0])\<rparr>)"
    by (simp add: led_doOperation_def led_blinkLED_eq)
  have led2: "waiting_at (led_displayResult_hash ks s) = Some In_displayResult_error"
    "result (state_of (led_displayResult_hash ks s)) = - 1"
    "out (state_of (led_displayResult_hash ks s)) =
         out s @ concat (replicate 5 [LATD 0xFF, LATD 0]) @ [LATD 0]"
    "returned (led_displayResult_hash (ks @ 0xE # rest) s) = Some ((), rest)"
    using assms(2,3)
    by (simp_all add: led_displayResult_hash_def led_doOperation_def led_blinkLED_eq
        set_LATD_def Let_def led_hold_until_reset_waits [OF assms(1)]
        led_hold_until_reset_reset [OF assms(1)])
  have seg: "seg_doOperation a 0 0xD t =
           (0, t\<lparr>out := out t @ concat (replicate 5
                 [LATA 1, LATD PATTERN_E, LATA 2, LATD (digitPatterns ! 0), LATA 0, LATD 0])\<rparr>)"
    by (simp add: seg_doOperation_def seg_show_error_eq)
  have seg2: "waiting_at (seg_displayResult_hash ks t) = Some In_displayResult_result"
    "result (state_of (seg_displayResult_hash ks t)) = 0"
    "currentDisplayValue (state_of (seg_displayResult_hash ks t)) = 0"
    "out (state_of (seg_displayResult_hash ks t)) =
         out t
         @ concat (replicate 5
             [LATA 1, LATD PATTERN_E, LATA 2, LATD (digitPatterns ! 0), LATA 0, LATD 0])
         @ concat (replicate 30 (events_of (displayNumber 0)))"
    "returned (seg_displayResult_hash (ks @ 0xE # rest) t) = Some ((), rest)"
    using assms(4,5)
    by (simp_all add: seg_displayResult_hash_def seg_doOperation_def seg_show_error_eq
        updateDisplay_eq DISPLAY_defs Let_def seg_hold_until_reset_waits [OF assms(1)]
        seg_hold_until_reset_reset [OF assms(1)])
  show ?thesis
    using led led2 seg seg2 by (intro conjI)
qed

theorem division_by_zero_witness:
  "waiting_at (led_displayResult_hash [0xFF, 0xF, 7]
      (led_initial\<lparr>num1 := 5, num2 := 0, operator := 0xD\<rparr>)) = Some In_displayResult_error
   \<and> returned (led_displayResult_hash [0xFF, 0xF, 7, 0xE, 1]
      (led_initial\<lparr>num1 := 5, num2 := 0, operator := 0xD\<rparr>)) = Some ((), [1])
   \<and> result (state_of (seg_displayResult_hash [0xFF, 0xF, 7]
      (seg_initial\<lparr>num1 := 5, num2 := 0, operator := 0xD\<rparr>))) = 0
   \<and> waiting_at (seg_displayResult_hash [0xFF, 0xF, 7]
      (seg_initial\<lparr>num1 := 5, num2 := 0, operator := 0xD\<rparr>)) = Some In_displayResult_result"
  using division_by_zero [of "[0xFF, 0xF, 7]" "led_initial\<lparr>num1 := 5, num2 := 0, operator := 0xD\<rparr>"
      "seg_initial\<lparr>num1 := 5, num2 := 0, operator := 0xD\<rparr>" 5 "[1]"]
  by (simp add: led_initial_def seg_initial_def)

text \<open>
  C1 as stated fails in the 7-segment variant: the cycle 5, D, 0, \<open>#\<close>, \<open>#\<close> ends with
  the numeric result \<open>0\<close> on the display, as the cycle 0, D, 5, \<open>#\<close>, \<open>#\<close> does.
\<close>

theorem seg_division_by_zero_shows_zero_counterexample:
  "waiting_at (seg_main_body [5, 0xD, 0, 0xF, 0xF] seg_initial) = Some In_displayResult_result
   \<and> result (state_of (seg_main_body [5, 0xD, 0, 0xF, 0xF] seg_initial)) = 0
   \<and> displayMode (state_of (seg_main_body [5, 0xD, 0, 0xF, 0xF] seg_initial)) = DISPLAY_RESULT
   \<and> currentDisplayValue (state_of (seg_main_body [5, 0xD, 0, 0xF, 0xF] seg_initial)) = 0
   \<and> events_of (displayNumber 0) = [LATA 0, LATD 0x7E, LATA 1, LATA 0, LATD 0x7E, LATA 2]
   \<and> waiting_at (seg_main_body [0, 0xD, 5, 0xF, 0xF] seg_initial) = Some In_displayResult_result
   \<and> result (state_of (seg_main_body [0, 0xD, 5, 0xF, 0xF] seg_initial)) = 0
   \<and> currentDisplayValue (state_of (seg_main_body [0, 0xD, 5, 0xF, 0xF] seg_initial)) = 0"
proof -
  have "events_of (displayNumber 0) = [LATA 0, LATD 0x7E, LATA 1, LATA 0, LATD 0x7E, LATA 2]"
    by (simp add: events_of_def displayNumber_def displayDigit_def encodeDigit_def
        array_read_def digitPatterns_def SEG_A_def SEG_B_def SEG_C_def SEG_D_def SEG_E_def
        SEG_F_def SEG_G_def SEG_DP_def set_LATA_def set_LATD_def set_LATD_read_def int16_def
        Let_def seg_initial_def TENS_DIGIT_PIN_def UNITS_DIGIT_PIN_def)
  then show ?thesis
    by (simp add: seg_defs int16_def)
qed

text \<open>
  C2 at the keys 5, A, \<open>*\<close>. In the 7-segment variant \<^verbatim>\<open>getNum2\<close> returns \<open>0\<close> on
  the reset key, \<^verbatim>\<open>main\<close> tests \<^verbatim>\<open>num2 == 0xFF\<close>, restores \<^verbatim>\<open>num1 = 5\<close> and calls
  \<^verbatim>\<open>displayResult\<close>: the calculator waits for \<open>#\<close>, and the keys 7, A, 3, \<open>#\<close> of a
  new calculation give the result \<open>0\<close>. In the binary-LED variant the same keys end the
  iteration of \<^verbatim>\<open>main\<close>.
\<close>

theorem seg_reset_in_getNum2_evaluation:
  "waiting_at (seg_main_body [5, 0xA, 0xE] seg_initial) = Some In_displayResult_confirm
   \<and> num1 (state_of (seg_main_body [5, 0xA, 0xE] seg_initial)) = 5
   \<and> waiting_at (seg_main_body [5, 0xA, 0xE, 7, 0xA, 3, 0xF] seg_initial) = Some In_displayResult_result
   \<and> result (state_of (seg_main_body [5, 0xA, 0xE, 7, 0xA, 3, 0xF] seg_initial)) = 0
   \<and> returned (led_main_body [5, 0xA, 0xE] led_initial) = Some ((), [])"
  by (simp add: seg_defs led_defs int16_def)

section \<open>One digit, or a leading zero\<close>

lemma same_trace_iff:
  "(take (length ps) xs = ps \<and> take (length pt) ys = pt
    \<and> drop (length ps) xs = drop (length pt) ys)
   = (\<exists>e. xs = ps @ e \<and> ys = pt @ e)"
proof
  assume a: "take (length ps) xs = ps \<and> take (length pt) ys = pt
    \<and> drop (length ps) xs = drop (length pt) ys"
  have "xs = ps @ drop (length ps) xs" "ys = pt @ drop (length pt) ys"
    using a append_take_drop_id [of "length ps" xs] append_take_drop_id [of "length pt" ys]
    by simp_all
  then show "\<exists>e. xs = ps @ e \<and> ys = pt @ e"
    using a by metis
next
  assume "\<exists>e. xs = ps @ e \<and> ys = pt @ e"
  then show "take (length ps) xs = ps \<and> take (length pt) ys = pt
    \<and> drop (length ps) xs = drop (length pt) ys"
    by auto
qed

lemma led_same_iff:
  "led_same ps pt s t =
    (num1 s = num1 t \<and> num2 s = num2 t \<and> operator s = operator t \<and> keyVal s = keyVal t
     \<and> result s = result t \<and> waitingForHashKey s = waitingForHashKey t
     \<and> validInput s = validInput t \<and> num21 s = num21 t \<and> num22 s = num22 t
     \<and> (\<exists>e. out s = ps @ e \<and> out t = pt @ e))"
  unfolding led_same_def same_trace_iff [symmetric] by simp

lemma and_then_rel:
  assumes "outcome_rel R m m'"
    and "\<And>v s t ks. R s t \<Longrightarrow> outcome_rel R (f v s ks) (f' v t ks)"
  shows "outcome_rel R (and_then m f) (and_then m' f')"
  using assms by (cases m; cases m') (simp_all add: and_then_def)

lemma led_same_hold_until_reset:
  "led_same ps pt s t \<Longrightarrow>
   outcome_rel (led_same ps pt) (led_hold_until_reset w ks s) (led_hold_until_reset w ks t)"
  by (induction ks arbitrary: s t)
     (auto simp: Let_def led_same_iff led_resetCalculator_eq)

lemma led_same_blink_loop:
  "led_same ps pt s t \<Longrightarrow>
   outcome_rel (led_same ps pt) (led_blink_loop n c b ks s) (led_blink_loop n c b ks t)"
  by (induction ks arbitrary: s t c b)
     (auto simp: Let_def led_same_iff led_resetCalculator_eq led_blink_write_def set_LATD_def)

lemma led_same_displayBinaryWithBlink:
  "led_same ps pt s t \<Longrightarrow>
   outcome_rel (led_same ps pt) (led_displayBinaryWithBlink n ks s)
     (led_displayBinaryWithBlink n ks t)"
  by (auto simp: led_displayBinaryWithBlink_def Let_def led_same_blink_loop)
     (auto simp: led_same_iff led_displayBinary_def set_LATD_def)

lemma led_same_displayResult_hash:
  assumes "led_same ps pt s t"
  shows "outcome_rel (led_same ps pt) (led_displayResult_hash ks s) (led_displayResult_hash ks t)"
proof -
  define r where "r = fst (led_doOperation (num1 s) (num2 s) (operator s) led_initial)"
  define s3 where "s3 = set_LATD 0
    ((if operator s = 0xD \<and> num2 s = 0 then led_blinkLED 0xFF 5 200 s else s)\<lparr>result := r\<rparr>)"
  define t3 where "t3 = set_LATD 0
    ((if operator s = 0xD \<and> num2 s = 0 then led_blinkLED 0xFF 5 200 t else t)\<lparr>result := r\<rparr>)"
  have eq: "num1 t = num1 s" "num2 t = num2 s" "operator t = operator s"
    using assms by (simp_all add: led_same_iff)
  have ds: "led_doOperation (num1 s) (num2 s) (operator s) s =
      (r, if operator s = 0xD \<and> num2 s = 0 then led_blinkLED 0xFF 5 200 s else s)"
    unfolding r_def by (subst led_doOperation_eq) simp
  have dt: "led_doOperation (num1 t) (num2 t) (operator t) t =
      (r, if operator s = 0xD \<and> num2 s = 0 then led_blinkLED 0xFF 5 200 t else t)"
    unfolding eq r_def by (subst led_doOperation_eq) simp
  have same3: "led_same ps pt s3 t3"
    using assms by (auto simp: s3_def t3_def led_same_iff led_blinkLED_eq set_LATD_def)
  have f3: "num2 t3 = num2 s3" "result s3 = r" "result t3 = r"
    using eq by (simp_all add: s3_def t3_def set_LATD_def led_blinkLED_eq)
  have k: "outcome_rel (led_same ps pt)
      (if 0 \<le> result s' then led_hold_until_reset w ks' s' else Returned () s' ks')
      (if 0 \<le> result t' then led_hold_until_reset w ks' t' else Returned () t' ks')"
    if "led_same ps pt s' t'" for s' t' w ks'
    using that led_same_hold_until_reset [OF that] by (simp add: led_same_iff)
  have hs: "led_displayResult_hash ks s =
      (if result s3 = - 1 \<and> num2 s3 = 0 then led_hold_until_reset In_displayResult_error ks s3
       else and_then (led_displayBinaryWithBlink (result s3) ks s3)
          (\<lambda>_ s4 ks4. if result s4 \<ge> 0 then led_hold_until_reset In_displayResult_result ks4 s4
                       else Returned () s4 ks4))"
    unfolding led_displayResult_hash_def ds s3_def by (simp only: Let_def prod.case)
  have ht: "led_displayResult_hash ks t =
      (if result t3 = - 1 \<and> num2 t3 = 0 then led_hold_until_reset In_displayResult_error ks t3
       else and_then (led_displayBinaryWithBlink (result t3) ks t3)
          (\<lambda>_ s4 ks4. if result s4 \<ge> 0 then led_hold_until_reset In_displayResult_result ks4 s4
                       else Returned () s4 ks4))"
    unfolding led_displayResult_hash_def dt t3_def by (simp only: Let_def prod.case)
  show ?thesis
  proof (cases "r = - 1 \<and> num2 s3 = 0")
    case True
    then show ?thesis
      unfolding hs ht f3 using led_same_hold_until_reset [OF same3] by simp
  next
    case False
    have "outcome_rel (led_same ps pt)
       (and_then (led_displayBinaryWithBlink r ks s3)
          (\<lambda>_ s4 ks4. if result s4 \<ge> 0 then led_hold_until_reset In_displayResult_result ks4 s4
                       else Returned () s4 ks4))
       (and_then (led_displayBinaryWithBlink r ks t3)
          (\<lambda>_ s4 ks4. if result s4 \<ge> 0 then led_hold_until_reset In_displayResult_result ks4 s4
                       else Returned () s4 ks4))"
      by (rule and_then_rel [OF led_same_displayBinaryWithBlink [OF same3]]) (rule k)
    then show ?thesis
      unfolding hs ht f3 by (simp only: False if_False)
  qed
qed

lemma led_same_displayResult_wait:
  "led_same ps pt s t \<Longrightarrow>
   outcome_rel (led_same ps pt) (led_displayResult_wait ks s) (led_displayResult_wait ks t)"
proof (induction ks arbitrary: s t)
  case Nil
  then show ?case by simp
next
  case (Cons k ks)
  have k: "led_same ps pt (s\<lparr>keyVal := k\<rparr>) (t\<lparr>keyVal := k\<rparr>)"
    using Cons.prems by (simp add: led_same_iff)
  have r: "led_same ps pt (led_blinkLED 1 5 200 (led_resetCalculator (s\<lparr>keyVal := k\<rparr>)))
      (led_blinkLED 1 5 200 (led_resetCalculator (t\<lparr>keyVal := k\<rparr>)))"
    using Cons.prems by (auto simp: led_same_iff led_resetCalculator_eq led_blinkLED_eq)
  show ?case
    using Cons.IH [OF k] led_same_displayResult_hash [OF k] r
    by (auto simp: Let_def)
qed

lemma led_same_displayResult:
  assumes "led_same ps pt s t"
  shows "outcome_rel (led_same ps pt) (led_displayResult ks s) (led_displayResult ks t)"
proof -
  have "led_same ps pt (led_blinkLED 8 3 200 s) (led_blinkLED 8 3 200 t)"
    using assms by (auto simp: led_same_iff led_blinkLED_eq)
  moreover have "waitingForHashKey t = waitingForHashKey s"
    using assms by (simp add: led_same_iff)
  ultimately show ?thesis
    using assms by (simp add: led_displayResult_def led_same_displayResult_wait)
qed

lemma led_same_getNum2_second:
  "led_same ps pt s t \<Longrightarrow>
   outcome_rel (led_same ps pt) (led_getNum2_second ks s) (led_getNum2_second ks t)"
  by (induction ks arbitrary: s t)
     (auto simp: Let_def led_same_iff led_resetCalculator_eq led_blinkLED_eq set_LATD_def)

lemma led_same_getNum2_first:
  "led_same ps pt s t \<Longrightarrow>
   outcome_rel (led_same ps pt) (led_getNum2_first ks s) (led_getNum2_first ks t)"
proof (induction ks arbitrary: s t)
  case Nil
  then show ?case by simp
next
  case (Cons k ks)
  have k: "led_same ps pt (s\<lparr>keyVal := k\<rparr>) (t\<lparr>keyVal := k\<rparr>)"
    using Cons.prems by (simp add: led_same_iff)
  have r: "led_same ps pt (led_blinkLED 1 5 200 (led_resetCalculator (s\<lparr>keyVal := k\<rparr>)))
      (led_blinkLED 1 5 200 (led_resetCalculator (t\<lparr>keyVal := k\<rparr>)))"
    using Cons.prems by (auto simp: led_same_iff led_resetCalculator_eq led_blinkLED_eq)
  have d: "led_same ps pt (set_LATD 2 (s\<lparr>keyVal := k, num21 := uint k, validInput := True\<rparr>))
      (set_LATD 2 (t\<lparr>keyVal := k, num21 := uint k, validInput := True\<rparr>))"
    using Cons.prems by (auto simp: led_same_iff set_LATD_def)
  show ?case
    using Cons.IH [OF k] led_same_getNum2_second [OF d] r
    by (auto simp: Let_def)
qed

lemma led_same_getNum2:
  assumes "led_same ps pt s t"
  shows "outcome_rel (led_same ps pt) (led_getNum2 ks s) (led_getNum2 ks t)"
proof -
  have "led_same ps pt (set_LATD 2 (s\<lparr>num21 := 0, num22 := 0, validInput := False\<rparr>))
      (set_LATD 2 (t\<lparr>num21 := 0, num22 := 0, validInput := False\<rparr>))"
    using assms by (auto simp: led_same_iff set_LATD_def)
  then show ?thesis
    unfolding led_getNum2_def by (rule led_same_getNum2_first)
qed


lemma and_then_simps [simp]:
  "and_then (Waiting w s) f = Waiting w s"
  "and_then (Returned v s ks) f = f v s ks"
  by (simp_all add: and_then_def)

lemma led_single_digit_then_operator:
  assumes "d \<le> 9" "0xA \<le> op" "op \<le> 0xD"
  shows "outcome_rel
     (led_same (out s @ [LATD 0, LATD 0, LATD 1, LATD 1, LATD 4])
        (out s @ [LATD 0, LATD 0, LATD 1, LATD 1, LATD 1, LATD 4, LATD 4, LATD 4]))
     (led_main_body (replicate m 0xFF @ d # replicate n 0xFF @ op # ks) s)
     (led_main_body
        (replicate i 0xFF @ 0 # replicate j 0xFF @ d # replicate l 0xFF @ op # ks) s)"
proof -
  let ?ps = "out s @ [LATD 0, LATD 0, LATD 1, LATD 1, LATD 4]"
  let ?pt = "out s @ [LATD 0, LATD 0, LATD 1, LATD 1, LATD 1, LATD 4, LATD 4, LATD 4]"
  define K where "K = (\<lambda>v s5 ks3.
      let s6 = set_LATD 0x02 (s5\<lparr>num2 := v\<rparr>) in
      if num2 s6 = 0xFF then Returned () s6 ks3 else led_displayResult ks3 s6)"
  define S1 where "S1 = s\<lparr>num1 := uint d, num2 := 0, operator := uint op,
      waitingForHashKey := False, validInput := True, keyVal := op, num11 := uint d,
      num12 := 0, out := ?ps\<rparr>"
  define S2 where "S2 = s\<lparr>num1 := uint d, num2 := 0, operator := uint op,
      waitingForHashKey := False, validInput := True, keyVal := op, num11 := 0,
      num12 := uint d, out := ?pt\<rparr>"
  note dk = digit_key [OF assms(1)] and ok = operator_key [OF assms(2,3)]
  have zero: "(0::byte) \<le> 9" "(0::byte) \<noteq> 0xFF" "(0::byte) \<noteq> 0xE" by simp_all
  have v: "int16 (int16 (0 * 10) + uint d) = uint d" "\<not> uint d > 99" "uint d \<noteq> 255"
    "uint op \<noteq> 0"
    using dk(5,6) ok(5,6) by (simp_all add: int16_def)
  have L: "led_main_body (replicate m 0xFF @ d # replicate n 0xFF @ op # ks) s
      = and_then (led_getNum2 ks S1) K"
  proof (cases s)
    case fields
    then show ?thesis
      using assms dk ok v
      by (simp add: led_main_body_def led_getNum1_def led_getOperator_def Let_def set_LATD_def
          led_getNum1_first_skip led_getNum1_second_skip
          led_resetCalculator_eq MAX_INPUT_def K_def S1_def)
  qed
  have R: "led_main_body
      (replicate i 0xFF @ 0 # replicate j 0xFF @ d # replicate l 0xFF @ op # ks) s
      = and_then (led_getNum2 ks S2) K"
  proof (cases s)
    case fields
    then show ?thesis
      using assms dk ok v zero
      by (simp add: led_main_body_def led_getNum1_def led_getOperator_def Let_def set_LATD_def
          led_getNum1_first_skip led_getNum1_second_skip led_getOperator_loop_skip
          led_resetCalculator_eq MAX_INPUT_def K_def S2_def)
  qed
  have rel: "led_same ?ps ?pt S1 S2"
    by (simp add: led_same_iff S1_def S2_def)
  have Krel: "outcome_rel (led_same ?ps ?pt) (K v s' ks') (K v t' ks')"
    if "led_same ?ps ?pt s' t'" for v s' t' ks'
  proof -
    have "led_same ?ps ?pt (set_LATD 0x02 (s'\<lparr>num2 := v\<rparr>)) (set_LATD 0x02 (t'\<lparr>num2 := v\<rparr>))"
      using that by (auto simp: led_same_iff set_LATD_def)
    then show ?thesis
      using led_same_displayResult [of ?ps ?pt "set_LATD 0x02 (s'\<lparr>num2 := v\<rparr>)"
          "set_LATD 0x02 (t'\<lparr>num2 := v\<rparr>)" ks']
      by (simp add: K_def Let_def) (simp add: set_LATD_def)
  qed
  show ?thesis
    unfolding L R by (rule and_then_rel [OF led_same_getNum2 [OF rel]]) (rule Krel)
qed

lemma seg_same_iff:
  "seg_same ps pt s t =
    (num1 s = num1 t \<and> num2 s = num2 t \<and> operator s = operator t \<and> keyVal s = keyVal t
     \<and> result s = result t \<and> waitingForHashKey s = waitingForHashKey t
     \<and> validInput s = validInput t \<and> num2_tens s = num2_tens t \<and> num2_units s = num2_units t
     \<and> displayMode s = displayMode t \<and> currentDisplayValue s = currentDisplayValue t
     \<and> isDisplayNegative s = isDisplayNegative t \<and> previousMode s = previousMode t
     \<and> fault s = fault t
     \<and> (\<exists>e. out s = ps @ e \<and> out t = pt @ e))"
  unfolding seg_same_def same_trace_iff [symmetric] by simp

lemma seg_same_keyVal:
  "seg_same ps pt s t \<Longrightarrow> seg_same ps pt (s\<lparr>keyVal := k\<rparr>) (t\<lparr>keyVal := k\<rparr>)"
  by (simp add: seg_same_iff)

lemma seg_same_append:
  assumes "seg_same ps pt s t"
  shows "seg_same ps pt (s\<lparr>out := out s @ e\<rparr>) (t\<lparr>out := out t @ e\<rparr>)"
proof -
  obtain e0 where "out s = ps @ e0" "out t = pt @ e0"
    using assms by (auto simp: seg_same_iff)
  then have "\<exists>e'. out s @ e = ps @ e' \<and> out t @ e = pt @ e'"
    by simp
  then show ?thesis
    using assms by (simp add: seg_same_iff)
qed


lemma seg_same_display_fields:
  "seg_same ps pt s t \<Longrightarrow>
   seg_same ps pt
     (s\<lparr>displayMode := a, previousMode := b, currentDisplayValue := c, isDisplayNegative := d\<rparr>)
     (t\<lparr>displayMode := a, previousMode := b, currentDisplayValue := c, isDisplayNegative := d\<rparr>)"
  by (simp add: seg_same_iff)

lemma seg_same_mode_fields:
  "seg_same ps pt s t \<Longrightarrow>
   seg_same ps pt (s\<lparr>displayMode := a, previousMode := b\<rparr>)
     (t\<lparr>displayMode := a, previousMode := b\<rparr>)"
  by (simp add: seg_same_iff)

lemma seg_same_updateDisplay:
  assumes "seg_same ps pt s t"
  shows "seg_same ps pt (updateDisplay v m s) (updateDisplay v m t)"
proof -
  have eq: "previousMode t = previousMode s" "currentDisplayValue t = currentDisplayValue s"
    "isDisplayNegative t = isDisplayNegative s"
    using assms by (simp_all add: seg_same_iff)
  note A = seg_same_append [OF seg_same_mode_fields [OF assms, where a = m and b = m]]
  note B = seg_same_append [OF seg_same_display_fields [OF assms,
          where a = m and b = m and c = v and d = "v < 0"]]
  note D = seg_same_append [OF seg_same_display_fields [OF assms,
          where a = m and b = m and c = 0 and d = False]]
  consider (a) "previousMode s = 1" "m = 2" | (b1) "m = 1" | (b3) "m = 3" | (b4) "m = 4"
    | (c) "previousMode s \<noteq> 1" "m = 2" | (d) "m \<noteq> 1" "m \<noteq> 2" "m \<noteq> 3" "m \<noteq> 4"
    by blast
  then show ?thesis
  proof cases
    case a
    show ?thesis using A a eq by (simp add: updateDisplay_eq DISPLAY_defs)
  next
    case b1
    show ?thesis using B b1 eq by (simp add: updateDisplay_eq DISPLAY_defs)
  next
    case b3
    show ?thesis using B b3 eq by (simp add: updateDisplay_eq DISPLAY_defs)
  next
    case b4
    show ?thesis using B b4 eq by (simp add: updateDisplay_eq DISPLAY_defs)
  next
    case c
    show ?thesis using A c eq by (simp add: updateDisplay_eq DISPLAY_defs)
  next
    case d
    show ?thesis using D d eq by (simp add: updateDisplay_eq DISPLAY_defs)
  qed
qed

lemma seg_same_resetCalculator:
  assumes "seg_same ps pt s t"
  shows "seg_same ps pt (seg_resetCalculator s) (seg_resetCalculator t)"
proof -
  have "seg_same ps pt
      (s\<lparr>num1 := 0, num2 := 0, operator := 0, waitingForHashKey := False,
         validInput := False, displayMode := DISPLAY_RESET, currentDisplayValue := 0,
         isDisplayNegative := False\<rparr>)
      (t\<lparr>num1 := 0, num2 := 0, operator := 0, waitingForHashKey := False,
         validInput := False, displayMode := DISPLAY_RESET, currentDisplayValue := 0,
         isDisplayNegative := False\<rparr>)"
    using assms by (simp add: seg_same_iff)
  then show ?thesis
    unfolding seg_resetCalculator_def by (rule seg_same_updateDisplay)
qed

lemma seg_same_hold_until_reset:
  "seg_same ps pt s t \<Longrightarrow>
   outcome_rel (seg_same ps pt) (seg_hold_until_reset w ks s) (seg_hold_until_reset w ks t)"
proof (induction ks arbitrary: s t)
  case Nil
  then show ?case by simp
next
  case (Cons k ks)
  note k = seg_same_keyVal [OF Cons.prems, of k]
  show ?case
    using Cons.IH [OF k] seg_same_resetCalculator [OF k]
    by (auto simp: Let_def)
qed

lemma updateDisplay_refresh:
  assumes "m = DISPLAY_NUM1 \<or> m = DISPLAY_NUM2 \<or> m = DISPLAY_RESULT"
  shows "updateDisplay v m s =
     s\<lparr>displayMode := m, previousMode := m, currentDisplayValue := v,
       isDisplayNegative := (v < 0),
       out := out s @ concat (replicate 30 (events_of (displayNumber v)))\<rparr>"
  using assms by (elim disjE) (simp_all add: updateDisplay_eq DISPLAY_defs)

lemma seg_same_result:
  "seg_same ps pt s t \<Longrightarrow> seg_same ps pt (s\<lparr>result := r\<rparr>) (t\<lparr>result := r\<rparr>)"
  by (simp add: seg_same_iff)

lemma seg_same_shown:
  "seg_same ps pt s t \<Longrightarrow>
   seg_same ps pt (s\<lparr>currentDisplayValue := c, isDisplayNegative := d\<rparr>)
     (t\<lparr>currentDisplayValue := c, isDisplayNegative := d\<rparr>)"
  by (simp add: seg_same_iff)

lemma seg_same_displayResult_hash:
  assumes "seg_same ps pt s t"
  shows "outcome_rel (seg_same ps pt) (seg_displayResult_hash ks s) (seg_displayResult_hash ks t)"
proof -
  define r where "r = fst (seg_doOperation (num1 s) (num2 s) (operator s) seg_initial)"
  have eq: "num1 t = num1 s" "num2 t = num2 s" "operator t = operator s"
    using assms by (simp_all add: seg_same_iff)
  have ds: "seg_doOperation (num1 s) (num2 s) (operator s) s =
      (r, if operator s = 0xD \<and> num2 s = 0 then seg_show_error s else s)"
    unfolding r_def by (subst seg_doOperation_eq) simp
  have dt: "seg_doOperation (num1 t) (num2 t) (operator t) t =
      (r, if operator s = 0xD \<and> num2 s = 0 then seg_show_error t else t)"
    unfolding eq r_def by (subst seg_doOperation_eq) simp
  have "seg_same ps pt
      (if operator s = 0xD \<and> num2 s = 0 then seg_show_error s else s)
      (if operator s = 0xD \<and> num2 s = 0 then seg_show_error t else t)"
    using assms seg_same_append [OF assms] by (simp add: seg_show_error_eq)
  then have "seg_same ps pt
      (updateDisplay r DISPLAY_RESULT
        ((if operator s = 0xD \<and> num2 s = 0 then seg_show_error s else s)\<lparr>result := r\<rparr>))
      (updateDisplay r DISPLAY_RESULT
        ((if operator s = 0xD \<and> num2 s = 0 then seg_show_error t else t)\<lparr>result := r\<rparr>))"
    by (intro seg_same_updateDisplay seg_same_result)
  then show ?thesis
    unfolding seg_displayResult_hash_def ds dt
    by (simp add: Let_def seg_same_hold_until_reset)
qed

lemma seg_same_displayResult_wait:
  "seg_same ps pt s t \<Longrightarrow>
   outcome_rel (seg_same ps pt) (seg_displayResult_wait ks s) (seg_displayResult_wait ks t)"
proof (induction ks arbitrary: s t)
  case Nil
  then show ?case by simp
next
  case (Cons k ks)
  note k = seg_same_keyVal [OF Cons.prems, of k]
  show ?case
    using Cons.IH [OF k] seg_same_displayResult_hash [OF k] seg_same_resetCalculator [OF k]
    by (auto simp: Let_def)
qed

lemma seg_same_displayResult:
  assumes "seg_same ps pt s t"
  shows "outcome_rel (seg_same ps pt) (seg_displayResult ks s) (seg_displayResult ks t)"
proof -
  have eq: "waitingForHashKey t = waitingForHashKey s" "num2 t = num2 s"
    using assms by (simp_all add: seg_same_iff)
  have "seg_same ps pt (seg_announce_wait s) (seg_announce_wait t)"
    using seg_same_append [OF seg_same_shown [OF assms,
        where c = "num2 s" and d = "num2 s < 0"]]
    by (simp add: seg_announce_wait_eq eq)
  moreover note eq(1)
  ultimately show ?thesis
    using assms by (simp add: seg_displayResult_def seg_same_displayResult_wait)
qed

lemma seg_same_getNum2_second:
  "seg_same ps pt s t \<Longrightarrow>
   outcome_rel (seg_same ps pt) (seg_getNum2_second ks s) (seg_getNum2_second ks t)"
proof (induction ks arbitrary: s t)
  case Nil
  then show ?case by simp
next
  case (Cons k ks)
  define D where "D = (\<lambda>u :: seg_state.
      let s2 = u\<lparr>keyVal := k\<rparr>\<lparr>num2_units := uint k\<rparr>;
          s3 = s2\<lparr>num2 := int16 (int16 (num2_tens s2 * 10) + num2_units s2)\<rparr>;
          s4 = (if num2 s3 > MAX_INPUT then s3\<lparr>num2 := MAX_INPUT\<rparr> else s3);
          s5 = updateDisplay (num2 s4) DISPLAY_NUM2 s4
      in s5\<lparr>waitingForHashKey := True\<rparr>)"
  define H where "H = (\<lambda>u :: seg_state.
      u\<lparr>keyVal := k\<rparr>\<lparr>num2 := num2_tens (u\<lparr>keyVal := k\<rparr>)\<rparr>\<lparr>waitingForHashKey := True\<rparr>)"
  have step: "seg_getNum2_second (k # ks) u =
      (if k = 0xFF then seg_getNum2_second ks (u\<lparr>keyVal := k\<rparr>)
       else if k \<le> 9 then Returned (num2 (D u)) (D u) ks
       else if k = 0xF then Returned (num2 (H u)) (H u) ks
       else if k = 0xE then Returned 0 (seg_resetCalculator (u\<lparr>keyVal := k\<rparr>)) ks
       else seg_getNum2_second ks (u\<lparr>keyVal := k\<rparr>))" for u
    by (simp add: D_def H_def Let_def)
  note k = seg_same_keyVal [OF Cons.prems, of k]
  have d: "seg_same ps pt (D s) (D t)"
    using Cons.prems
    by (auto simp: D_def Let_def seg_same_iff updateDisplay_refresh)
  have h: "seg_same ps pt (H s) (H t)"
    using Cons.prems by (simp add: H_def seg_same_iff)
  have v: "num2 (D t) = num2 (D s)" "num2 (H t) = num2 (H s)"
    using d h by (simp_all add: seg_same_iff)
  show ?case
    unfolding step v
    using Cons.IH [OF k] seg_same_resetCalculator [OF k] d h
    by auto
qed

lemma seg_same_getNum2_first:
  "seg_same ps pt s t \<Longrightarrow>
   outcome_rel (seg_same ps pt) (seg_getNum2_first ks s) (seg_getNum2_first ks t)"
proof (induction ks arbitrary: s t)
  case Nil
  then show ?case by simp
next
  case (Cons k ks)
  note k = seg_same_keyVal [OF Cons.prems, of k]
  have d: "seg_same ps pt
      (updateDisplay (uint k) DISPLAY_NUM2 (s\<lparr>keyVal := k, num2_tens := uint k, validInput := True\<rparr>))
      (updateDisplay (uint k) DISPLAY_NUM2 (t\<lparr>keyVal := k, num2_tens := uint k, validInput := True\<rparr>))"
    using Cons.prems by (intro seg_same_updateDisplay) (auto simp: seg_same_iff)
  show ?case
    using Cons.IH [OF k] seg_same_getNum2_second [OF d] seg_same_resetCalculator [OF k]
    by (auto simp: Let_def)
qed

lemma seg_same_getNum2:
  assumes "seg_same ps pt s t"
  shows "outcome_rel (seg_same ps pt) (seg_getNum2 ks s) (seg_getNum2 ks t)"
proof -
  have "seg_same ps pt
      (updateDisplay 0 DISPLAY_NUM2 (s\<lparr>num2_tens := 0, num2_units := 0, validInput := False\<rparr>))
      (updateDisplay 0 DISPLAY_NUM2 (t\<lparr>num2_tens := 0, num2_units := 0, validInput := False\<rparr>))"
    using assms by (intro seg_same_updateDisplay) (auto simp: seg_same_iff)
  then show ?thesis
    unfolding seg_getNum2_def by (rule seg_same_getNum2_first)
qed


lemma seg_single_digit_then_operator:
  assumes "d \<le> 9" "0xA \<le> op" "op \<le> 0xD"
  shows "outcome_rel
     (seg_same
        (out s @ concat (replicate 30 (events_of (displayNumber 0)))
           @ concat (replicate 30 (events_of (displayNumber 0)))
           @ concat (replicate 30 (events_of (displayNumber (uint d))))
           @ concat (replicate 10 (events_of (\<lambda>u. displayNumber (uint d)
               (displayDigit 11 1 False (displayDigit (uint op) 0 False u))))))
        (out s @ concat (replicate 30 (events_of (displayNumber 0)))
           @ concat (replicate 30 (events_of (displayNumber 0)))
           @ concat (replicate 30 (events_of (displayNumber 0)))
           @ concat (replicate 30 (events_of (displayNumber (uint d))))
           @ concat (replicate l
               (events_of (displayNumber (uint d)) @ events_of (displayNumber (uint d))))
           @ events_of (displayNumber (uint d))
           @ concat (replicate 10 (events_of (\<lambda>u. displayNumber (uint d)
               (displayDigit 11 1 False (displayDigit (uint op) 0 False u)))))))
     (seg_main_body (replicate m 0xFF @ d # replicate n 0xFF @ op # ks) s)
     (seg_main_body
        (replicate i 0xFF @ 0 # replicate j 0xFF @ d # replicate l 0xFF @ op # ks) s)"
proof -
  let ?ps = "out s @ concat (replicate 30 (events_of (displayNumber 0)))
           @ concat (replicate 30 (events_of (displayNumber 0)))
           @ concat (replicate 30 (events_of (displayNumber (uint d))))
           @ concat (replicate 10 (events_of (\<lambda>u. displayNumber (uint d)
               (displayDigit 11 1 False (displayDigit (uint op) 0 False u)))))"
  let ?pt = "out s @ concat (replicate 30 (events_of (displayNumber 0)))
           @ concat (replicate 30 (events_of (displayNumber 0)))
           @ concat (replicate 30 (events_of (displayNumber 0)))
           @ concat (replicate 30 (events_of (displayNumber (uint d))))
           @ concat (replicate l
               (events_of (displayNumber (uint d)) @ events_of (displayNumber (uint d))))
           @ events_of (displayNumber (uint d))
           @ concat (replicate 10 (events_of (\<lambda>u. displayNumber (uint d)
               (displayDigit 11 1 False (displayDigit (uint op) 0 False u)))))"
  define K where "K = (\<lambda>v s6 ks3.
      let s7 = s6\<lparr>num2 := v\<rparr> in
      if num2 s7 = 0xFF then Returned () s7 ks3
      else seg_displayResult ks3 (s7\<lparr>num1 := uint d\<rparr>))"
  define S1 where "S1 = s\<lparr>num1 := uint d, num2 := 0, operator := uint op,
      waitingForHashKey := False, validInput := True, keyVal := op, num1_tens := uint d,
      num1_units := 0, displayMode := DISPLAY_NUM1, previousMode := DISPLAY_NUM1,
      currentDisplayValue := uint d, isDisplayNegative := False, out := ?ps\<rparr>"
  define S2 where "S2 = s\<lparr>num1 := uint d, num2 := 0, operator := uint op,
      waitingForHashKey := False, validInput := True, keyVal := op, num1_tens := 0,
      num1_units := uint d, displayMode := DISPLAY_NUM1, previousMode := DISPLAY_NUM1,
      currentDisplayValue := uint d, isDisplayNegative := False, out := ?pt\<rparr>"
  note dk = digit_key [OF assms(1)] and ok = operator_key [OF assms(2,3)]
  have zero: "(0::byte) \<le> 9" "(0::byte) \<noteq> 0xFF" "(0::byte) \<noteq> 0xE" by simp_all
  have v: "int16 (int16 (0 * 10) + uint d) = uint d" "\<not> uint d > 99" "uint d \<noteq> 255"
    "uint op \<noteq> 0" "\<not> uint d < 0"
    using dk(5,6) ok(5,6) by (simp_all add: int16_def)
  have L: "seg_main_body (replicate m 0xFF @ d # replicate n 0xFF @ op # ks) s
      = and_then (seg_getNum2 ks S1) K"
  proof (cases s)
    case fields
    then show ?thesis
      using assms dk ok v
      by (simp add: seg_main_body_def seg_getNum1_def seg_getOperator_def Let_def
          seg_getNum1_first_skip seg_getNum1_second_skip
          seg_resetCalculator_eq updateDisplay_eq seg_show_operator_eq displayNumber_eq
          DISPLAY_defs MAX_INPUT_def K_def S1_def cong: if_cong)
  qed
  have R: "seg_main_body
      (replicate i 0xFF @ 0 # replicate j 0xFF @ d # replicate l 0xFF @ op # ks) s
      = and_then (seg_getNum2 ks S2) K"
  proof (cases s)
    case fields
    then show ?thesis
      using assms dk ok v zero
      by (simp add: seg_main_body_def seg_getNum1_def seg_getOperator_def Let_def
          seg_getNum1_first_skip seg_getNum1_second_skip seg_getOperator_loop_skip
          seg_resetCalculator_eq updateDisplay_eq seg_show_operator_eq displayNumber_eq
          DISPLAY_defs MAX_INPUT_def K_def S2_def cong: if_cong)
  qed
  have rel: "seg_same ?ps ?pt S1 S2"
    by (simp add: seg_same_iff S1_def S2_def)
  have Krel: "outcome_rel (seg_same ?ps ?pt) (K v s' ks') (K v t' ks')"
    if "seg_same ?ps ?pt s' t'" for v s' t' ks'
  proof -
    have a: "seg_same ?ps ?pt (s'\<lparr>num2 := v\<rparr>) (t'\<lparr>num2 := v\<rparr>)"
      using that by (simp add: seg_same_iff)
    have b: "seg_same ?ps ?pt (s'\<lparr>num2 := v, num1 := uint d\<rparr>) (t'\<lparr>num2 := v, num1 := uint d\<rparr>)"
      using that by (simp add: seg_same_iff)
    show ?thesis
      using a seg_same_displayResult [OF b, of ks']
      by (auto simp: K_def Let_def)
  qed
  show ?thesis
    unfolding L R by (rule and_then_rel [OF seg_same_getNum2 [OF rel]]) (rule Krel)
qed


lemma led_same_outcome:
  assumes "outcome_rel (led_same ps pt) m m'"
  shows "waiting_at m = waiting_at m'" "returned m = returned m'"
    "result (state_of m) = result (state_of m')" "num1 (state_of m) = num1 (state_of m')"
    "num2 (state_of m) = num2 (state_of m')" "operator (state_of m) = operator (state_of m')"
  using assms by (cases m; cases m'; simp add: led_same_iff)+

lemma seg_same_outcome:
  assumes "outcome_rel (seg_same ps pt) m m'"
  shows "waiting_at m = waiting_at m'" "returned m = returned m'"
    "result (state_of m) = result (state_of m')" "num1 (state_of m) = num1 (state_of m')"
    "num2 (state_of m) = num2 (state_of m')" "operator (state_of m) = operator (state_of m')"
    "currentDisplayValue (state_of m) = currentDisplayValue (state_of m')"
  using assms by (cases m; cases m'; simp add: seg_same_iff)+

lemma getNum1_single_digit:
  assumes "d \<le> 9" "0xA \<le> op" "op \<le> 0xD"
  shows "returned (led_getNum1 (replicate m 0xFF @ d # replicate n 0xFF @ op # ks) s)
      = Some (uint d, ks)"
    "returned (led_getNum1 (replicate i 0xFF @ 0 # replicate j 0xFF @ d # rest) s)
      = Some (uint d, rest)"
    "returned (seg_getNum1 (replicate m 0xFF @ d # replicate n 0xFF @ op # ks) t)
      = Some (uint d, ks)"
    "returned (seg_getNum1 (replicate i 0xFF @ 0 # replicate j 0xFF @ d # rest) t)
      = Some (uint d, rest)"
  using assms digit_key [OF assms(1)] operator_key [OF assms(2,3)]
  by (simp_all add: led_getNum1_def seg_getNum1_def Let_def set_LATD_def updateDisplay_eq
      led_getNum1_first_skip led_getNum1_second_skip
      seg_getNum1_first_skip seg_getNum1_second_skip
      DISPLAY_defs MAX_INPUT_def int16_def)

text \<open>
  C6. For every digit \<open>d\<close> and operator key \<open>op\<close>, the keys \<open>d\<close>, \<open>op\<close> and the keys
  \<open>0\<close>, \<open>d\<close>, \<open>op\<close>, with any number of scans without a key before each of them, give
  \<^verbatim>\<open>getNum1\<close> the same operand \<open>d\<close>, and whatever keys follow, the two iterations of
  \<^verbatim>\<open>main\<close> end in the same way: in the same loop or both finished, with the same keys
  left, the same \<^verbatim>\<open>result\<close>, operands and operator, and the same writes to the display
  from the entry of the second operand on. They differ only in the digits
  \<^verbatim>\<open>num11\<close>/\<^verbatim>\<open>num12\<close> (\<^verbatim>\<open>num1_tens\<close>/\<^verbatim>\<open>num1_units\<close>) and in what the display showed
  while the first operand and the operator were entered: with the leading zero the
  operator is read by the loop of \<^verbatim>\<open>getOperator\<close>, which in the 7-segment variant
  writes the operand to the display around every scan.
\<close>

theorem single_digit_same_as_leading_zero:
  assumes "d \<le> 9" "0xA \<le> op" "op \<le> 0xD"
  shows "returned (led_getNum1
             (replicate m 0xFF @ d # replicate n 0xFF @ op # ks) s)
         = Some (uint d, ks)
     \<and> returned (led_getNum1
             (replicate i 0xFF @ 0 # replicate j 0xFF @ d # replicate l 0xFF @ op # ks) s)
         = Some (uint d, replicate l 0xFF @ op # ks)
     \<and> outcome_rel
         (led_same (out s @ [LATD 0, LATD 0, LATD 1, LATD 1, LATD 4])
            (out s @ [LATD 0, LATD 0, LATD 1, LATD 1, LATD 1, LATD 4, LATD 4, LATD 4]))
         (led_main_body (replicate m 0xFF @ d # replicate n 0xFF @ op # ks) s)
         (led_main_body
             (replicate i 0xFF @ 0 # replicate j 0xFF @ d # replicate l 0xFF @ op # ks) s)
     \<and> waiting_at (led_main_body
             (replicate m 0xFF @ d # replicate n 0xFF @ op # ks) s)
         = waiting_at (led_main_body
             (replicate i 0xFF @ 0 # replicate j 0xFF @ d # replicate l 0xFF @ op # ks) s)
     \<and> returned (led_main_body
             (replicate m 0xFF @ d # replicate n 0xFF @ op # ks) s)
         = returned (led_main_body
             (replicate i 0xFF @ 0 # replicate j 0xFF @ d # replicate l 0xFF @ op # ks) s)
     \<and> result (state_of (led_main_body
             (replicate m 0xFF @ d # replicate n 0xFF @ op # ks) s))
         = result (state_of (led_main_body
             (replicate i 0xFF @ 0 # replicate j 0xFF @ d # replicate l 0xFF @ op # ks) s))
     \<and> returned (seg_getNum1
             (replicate m 0xFF @ d # replicate n 0xFF @ op # ks) t)
         = Some (uint d, ks)
     \<and> returned (seg_getNum1
             (replicate i 0xFF @ 0 # replicate j 0xFF @ d # replicate l 0xFF @ op # ks) t)
         = Some (uint d, replicate l 0xFF @ op # ks)
     \<and> outcome_rel
         (seg_same
            (out t @ concat (replicate 30 (events_of (displayNumber 0)))
               @ concat (replicate 30 (events_of (displayNumber 0)))
               @ concat (replicate 30 (events_of (displayNumber (uint d))))
               @ concat (replicate 10 (events_of (\<lambda>u. displayNumber (uint d)
                   (displayDigit 11 1 False (displayDigit (uint op) 0 False u))))))
            (out t @ concat (replicate 30 (events_of (displayNumber 0)))
               @ concat (replicate 30 (events_of (displayNumber 0)))
               @ concat (replicate 30 (events_of (displayNumber 0)))
               @ concat (replicate 30 (events_of (displayNumber (uint d))))
               @ concat (replicate l
                   (events_of (displayNumber (uint d)) @ events_of (displayNumber (uint d))))
               @ events_of (displayNumber (uint d))
               @ concat (replicate 10 (events_of (\<lambda>u. displayNumber (uint d)
                   (displayDigit 11 1 False (displayDigit (uint op) 0 False u)))))))
         (seg_main_body (replicate m 0xFF @ d # replicate n 0xFF @ op # ks) t)
         (seg_main_body
             (replicate i 0xFF @ 0 # replicate j 0xFF @ d # replicate l 0xFF @ op # ks) t)
     \<and> waiting_at (seg_main_body
             (replicate m 0xFF @ d # replicate n 0xFF @ op # ks) t)
         = waiting_at (seg_main_body
             (replicate i 0xFF @ 0 # replicate j 0xFF @ d # replicate l 0xFF @ op # ks) t)
     \<and> returned (seg_main_body
             (replicate m 0xFF @ d # replicate n 0xFF @ op # ks) t)
         = returned (seg_main_body
             (replicate i 0xFF @ 0 # replicate j 0xFF @ d # replicate l 0xFF @ op # ks) t)
     \<and> result (state_of (seg_main_body
             (replicate m 0xFF @ d # replicate n 0xFF @ op # ks) t))
         = result (state_of (seg_main_body
             (replicate i 0xFF @ 0 # replicate j 0xFF @ d # replicate l 0xFF @ op # ks) t))"
  using getNum1_single_digit [OF assms]
    led_single_digit_then_operator [OF assms, of s m n ks i j l]
    led_same_outcome [OF led_single_digit_then_operator [OF assms, of s m n ks i j l]]
    seg_single_digit_then_operator [OF assms, of t l m n ks i j]
    seg_same_outcome [OF seg_single_digit_then_operator [OF assms, of t l m n ks i j]]
  by (intro conjI)

theorem single_digit_same_as_leading_zero_witness:
  "result (state_of (led_main_body [5, 0xFF, 0xA, 3, 0xF, 0xF] led_initial)) = 8
   \<and> result (state_of (led_main_body [0xFF, 0, 5, 0xFF, 0xFF, 0xA, 3, 0xF, 0xF] led_initial)) = 8
   \<and> result (state_of (seg_main_body [5, 0xB, 9, 0xF, 0xF] seg_initial)) = - 4
   \<and> result (state_of (seg_main_body [0, 5, 0xFF, 0xB, 9, 0xF, 0xF] seg_initial)) = - 4"
proof -
  have k: "(5::byte) \<le> 9" "(0xA::byte) \<le> 0xA" "(0xA::byte) \<le> 0xD" "(0xA::byte) \<le> 0xB"
    "(0xB::byte) \<le> 0xD"
    by simp_all
  have "result (state_of (led_main_body
          (replicate 0 0xFF @ 5 # replicate (Suc 0) 0xFF @ 0xA # [3, 0xF, 0xF]) led_initial))
      = result (state_of (led_main_body
          (replicate (Suc 0) 0xFF @ 0 # replicate 0 0xFF @ 5 # replicate (Suc (Suc 0)) 0xFF
             @ 0xA # [3, 0xF, 0xF]) led_initial))"
    using single_digit_same_as_leading_zero [OF k(1,2,3), where m = 0 and n = "Suc 0"
        and i = "Suc 0" and j = 0 and l = "Suc (Suc 0)" and ks = "[3, 0xF, 0xF]"
        and s = led_initial and t = seg_initial]
    by fast
  then have "result (state_of (led_main_body [5, 0xFF, 0xA, 3, 0xF, 0xF] led_initial))
      = result (state_of (led_main_body [0xFF, 0, 5, 0xFF, 0xFF, 0xA, 3, 0xF, 0xF] led_initial))"
    by (simp only: replicate.simps append.simps)
  moreover have "result (state_of (seg_main_body
          (replicate 0 0xFF @ 5 # replicate 0 0xFF @ 0xB # [9, 0xF, 0xF]) seg_initial))
      = result (state_of (seg_main_body
          (replicate 0 0xFF @ 0 # replicate 0 0xFF @ 5 # replicate (Suc 0) 0xFF
             @ 0xB # [9, 0xF, 0xF]) seg_initial))"
    using single_digit_same_as_leading_zero [OF k(1,4,5), where m = 0 and n = 0
        and i = 0 and j = 0 and l = "Suc 0" and ks = "[9, 0xF, 0xF]"
        and s = led_initial and t = seg_initial]
    by fast
  then have "result (state_of (seg_main_body [5, 0xB, 9, 0xF, 0xF] seg_initial))
      = result (state_of (seg_main_body [0, 5, 0xFF, 0xB, 9, 0xF, 0xF] seg_initial))"
    by (simp only: replicate.simps append.simps)
  moreover have "result (state_of (led_main_body [5, 0xFF, 0xA, 3, 0xF, 0xF] led_initial)) = 8"
    by (simp add: led_defs int16_def)
  moreover have "result (state_of (seg_main_body [5, 0xB, 9, 0xF, 0xF] seg_initial)) = - 4"
    by (simp add: seg_defs int16_def)
  ultimately show ?thesis
    by simp
qed

section \<open>The loop of main\<close>

text \<open>A routine that returns has consumed a key, or (\<^verbatim>\<open>getOperator\<close> with the operator
  already captured, and what follows the key \<open>#\<close> in \<^verbatim>\<open>displayResult\<close>) none.\<close>

lemma led_getNum1_second_shorter:
  "led_getNum1_second ks s = Returned v s' ks' \<Longrightarrow> length ks' < length ks"
  by (induction ks arbitrary: s) (auto simp: Let_def split: if_splits dest: less_SucI)

lemma led_getNum1_first_shorter:
  "led_getNum1_first ks s = Returned v s' ks' \<Longrightarrow> length ks' < length ks"
  by (induction ks arbitrary: s)
     (auto simp: Let_def split: if_splits dest: less_SucI led_getNum1_second_shorter)

lemma led_getOperator_loop_shorter:
  "led_getOperator_loop ks s = Returned v s' ks' \<Longrightarrow> length ks' < length ks"
  by (induction ks arbitrary: s) (auto simp: Let_def split: if_splits dest: less_SucI)

lemma led_getNum2_second_shorter:
  "led_getNum2_second ks s = Returned v s' ks' \<Longrightarrow> length ks' < length ks"
  by (induction ks arbitrary: s) (auto simp: Let_def split: if_splits dest: less_SucI)

lemma led_getNum2_first_shorter:
  "led_getNum2_first ks s = Returned v s' ks' \<Longrightarrow> length ks' < length ks"
  by (induction ks arbitrary: s)
     (auto simp: Let_def split: if_splits dest: less_SucI led_getNum2_second_shorter)

lemma led_hold_until_reset_shorter:
  "led_hold_until_reset w ks s = Returned v s' ks' \<Longrightarrow> length ks' < length ks"
  by (induction ks arbitrary: s) (auto simp: Let_def split: if_splits dest: less_SucI)

lemma led_blink_loop_shorter:
  "led_blink_loop n c b ks s = Returned v s' ks' \<Longrightarrow> length ks' < length ks"
  by (induction ks arbitrary: s c b) (auto simp: Let_def split: if_splits dest: less_SucI)

lemma led_displayResult_hash_shorter:
  "led_displayResult_hash ks s = Returned v s' ks' \<Longrightarrow> length ks' \<le> length ks"
  by (auto simp: led_displayResult_hash_def led_displayBinaryWithBlink_def Let_def and_then_def
      split: if_splits prod.splits outcome.splits
      dest!: led_hold_until_reset_shorter led_blink_loop_shorter)

lemma led_displayResult_wait_shorter:
  "led_displayResult_wait ks s = Returned v s' ks' \<Longrightarrow> length ks' < length ks"
  by (induction ks arbitrary: s)
     (auto simp: Let_def split: if_splits dest: less_SucI dest!: led_displayResult_hash_shorter)

lemma led_main_body_shorter:
  "led_main_body ks s = Returned v s' ks' \<Longrightarrow> length ks' < length ks"
  by (auto simp: led_main_body_def led_getNum1_def led_getOperator_def led_getNum2_def
      led_displayResult_def Let_def and_then_def
      split: if_splits outcome.splits
      dest!: led_getNum1_first_shorter led_getOperator_loop_shorter led_getNum2_first_shorter
        led_displayResult_wait_shorter)

lemma led_main_loop_total:
  "length ks < n \<Longrightarrow> \<exists>w s'. led_main_loop n ks s = Some (w, s')"
proof (induction n arbitrary: ks s)
  case 0
  then show ?case by simp
next
  case (Suc n)
  show ?case
  proof (cases "led_main_body ks s")
    case (Waiting w s')
    then show ?thesis by simp
  next
    case (Returned v s' ks')
    then have "length ks' < n"
      using led_main_body_shorter [OF Returned] Suc.prems by simp
    then show ?thesis
      using Suc.IH Returned by simp
  qed
qed


lemma seg_getNum1_second_shorter:
  "seg_getNum1_second ks s = Returned v s' ks' \<Longrightarrow> length ks' < length ks"
  by (induction ks arbitrary: s) (auto simp: Let_def split: if_splits dest: less_SucI)

lemma seg_getNum1_first_shorter:
  "seg_getNum1_first ks s = Returned v s' ks' \<Longrightarrow> length ks' < length ks"
  by (induction ks arbitrary: s)
     (auto simp: Let_def split: if_splits dest: less_SucI seg_getNum1_second_shorter)

lemma seg_getOperator_loop_shorter:
  "seg_getOperator_loop n ks s = Returned v s' ks' \<Longrightarrow> length ks' < length ks"
  by (induction ks arbitrary: s) (auto simp: Let_def split: if_splits dest: less_SucI)

lemma seg_getNum2_second_shorter:
  "seg_getNum2_second ks s = Returned v s' ks' \<Longrightarrow> length ks' < length ks"
  by (induction ks arbitrary: s) (auto simp: Let_def split: if_splits dest: less_SucI)

lemma seg_getNum2_first_shorter:
  "seg_getNum2_first ks s = Returned v s' ks' \<Longrightarrow> length ks' < length ks"
  by (induction ks arbitrary: s)
     (auto simp: Let_def split: if_splits dest: less_SucI seg_getNum2_second_shorter)

lemma seg_hold_until_reset_shorter:
  "seg_hold_until_reset w ks s = Returned v s' ks' \<Longrightarrow> length ks' < length ks"
  by (induction ks arbitrary: s) (auto simp: Let_def split: if_splits dest: less_SucI)

lemma seg_displayResult_hash_shorter:
  "seg_displayResult_hash ks s = Returned v s' ks' \<Longrightarrow> length ks' < length ks"
  by (auto simp: seg_displayResult_hash_def Let_def split: prod.splits
      dest!: seg_hold_until_reset_shorter)

lemma seg_displayResult_wait_shorter:
  "seg_displayResult_wait ks s = Returned v s' ks' \<Longrightarrow> length ks' < length ks"
  by (induction ks arbitrary: s)
     (auto simp: Let_def split: if_splits dest: less_SucI dest!: seg_displayResult_hash_shorter)

lemma seg_main_body_shorter:
  "seg_main_body ks s = Returned v s' ks' \<Longrightarrow> length ks' < length ks"
  by (auto simp: seg_main_body_def seg_getNum1_def seg_getOperator_def seg_getNum2_def
      seg_displayResult_def Let_def and_then_def
      split: if_splits outcome.splits
      dest!: seg_getNum1_first_shorter seg_getOperator_loop_shorter seg_getNum2_first_shorter
        seg_displayResult_wait_shorter)

lemma seg_main_loop_total:
  "length ks < n \<Longrightarrow> \<exists>w s'. seg_main_loop n ks s = Some (w, s')"
proof (induction n arbitrary: ks s)
  case 0
  then show ?case by simp
next
  case (Suc n)
  show ?case
  proof (cases "seg_main_body ks s")
    case (Waiting w s')
    then show ?thesis by simp
  next
    case (Returned v s' ks')
    then have "length ks' < n"
      using seg_main_body_shorter [OF Returned] Suc.prems by simp
    then show ?thesis
      using Suc.IH Returned by simp
  qed
qed

text \<open>
  The reset key, pressed in any loop of the binary-LED variant, ends the iteration of
  \<^verbatim>\<open>main\<close>: each function returns, with the keys that remain, if any, ending in the
  reset key.
\<close>

lemma reset_rest_mono: "reset_rest n ks' \<Longrightarrow> n \<le> m \<Longrightarrow> reset_rest m ks'"
  by (simp add: reset_rest_def)

lemma reset_rest_self: "length ks < n \<Longrightarrow> reset_rest n (ks @ [0xE])"
  by (simp add: reset_rest_def)

lemma led_getNum1_second_reset:
  "\<exists>v s' ks'. led_getNum1_second (ks @ [0xE]) s = Returned v s' ks'
      \<and> (ks' = [] \<and> v = 0xFF \<or> reset_rest (length ks) ks')"
proof (induction ks arbitrary: s)
  case Nil
  show ?case by (simp add: Let_def)
next
  case (Cons k ks)
  show ?case
    using Cons.IH [of "s\<lparr>keyVal := k\<rparr>"]
    by (auto simp: Let_def reset_rest_def)
qed

lemma led_getNum1_first_reset:
  "\<exists>v s' ks'. led_getNum1_first (ks @ [0xE]) s = Returned v s' ks'
      \<and> (ks' = [] \<and> v = 0xFF \<or> reset_rest (length ks) ks')"
proof (induction ks arbitrary: s)
  case Nil
  show ?case by (simp add: Let_def)
next
  case (Cons k ks)
  show ?case
    using Cons.IH [of "s\<lparr>keyVal := k\<rparr>"]
      led_getNum1_second_reset [of ks "set_LATD 1 (s\<lparr>keyVal := k, num11 := uint k, validInput := True\<rparr>)"]
    by (auto simp: Let_def reset_rest_def)
qed

lemma led_getOperator_loop_reset:
  "\<exists>v s' ks'. led_getOperator_loop (ks @ [0xE]) s = Returned v s' ks'
      \<and> (ks' = [] \<and> v = 0 \<or> reset_rest (length ks) ks')"
proof (induction ks arbitrary: s)
  case Nil
  show ?case by (simp add: Let_def)
next
  case (Cons k ks)
  show ?case
    using Cons.IH [of "s\<lparr>keyVal := k\<rparr>"]
    by (auto simp: Let_def reset_rest_def)
qed

lemma led_getOperator_reset:
  "\<exists>v s' ks'. led_getOperator (ks @ [0xE]) s = Returned v s' ks'
      \<and> (ks' = [] \<and> v = 0 \<or> reset_rest (Suc (length ks)) ks')"
  using led_getOperator_loop_reset [of ks "set_LATD 4 s"]
  by (auto simp: led_getOperator_def Let_def reset_rest_def)

lemma led_getNum2_second_reset:
  "\<exists>v s' ks'. led_getNum2_second (ks @ [0xE]) s = Returned v s' ks'
      \<and> (ks' = [] \<and> v = 0xFF \<or> reset_rest (length ks) ks')"
proof (induction ks arbitrary: s)
  case Nil
  show ?case by (simp add: Let_def)
next
  case (Cons k ks)
  show ?case
    using Cons.IH [of "s\<lparr>keyVal := k\<rparr>"]
    by (auto simp: Let_def reset_rest_def)
qed

lemma led_getNum2_first_reset:
  "\<exists>v s' ks'. led_getNum2_first (ks @ [0xE]) s = Returned v s' ks'
      \<and> (ks' = [] \<and> v = 0xFF \<or> reset_rest (length ks) ks')"
proof (induction ks arbitrary: s)
  case Nil
  show ?case by (simp add: Let_def)
next
  case (Cons k ks)
  show ?case
    using Cons.IH [of "s\<lparr>keyVal := k\<rparr>"]
      led_getNum2_second_reset [of ks "set_LATD 2 (s\<lparr>keyVal := k, num21 := uint k, validInput := True\<rparr>)"]
    by (auto simp: Let_def reset_rest_def)
qed

lemma led_hold_until_reset_reset_rest:
  "\<exists>s' ks'. led_hold_until_reset w (ks @ [0xE]) s = Returned () s' ks'
      \<and> (ks' = [] \<or> reset_rest (length ks) ks')"
proof (induction ks arbitrary: s)
  case Nil
  show ?case by (simp add: Let_def)
next
  case (Cons k ks)
  show ?case
    using Cons.IH [of "s\<lparr>keyVal := k\<rparr>"]
    by (auto simp: Let_def reset_rest_def)
qed

lemma led_blink_loop_reset_rest:
  "\<exists>s' ks'. led_blink_loop n c b (ks @ [0xE]) s = Returned () s' ks'
      \<and> (ks' = [] \<or> reset_rest (length ks) ks')"
proof (induction ks arbitrary: s c b)
  case Nil
  show ?case by (simp add: Let_def)
next
  case (Cons k ks)
  show ?case
    using Cons.IH [of "led_blink_counter c" "led_blink_state c b"
        "(led_blink_write n (led_blink_state c b) s)\<lparr>keyVal := k\<rparr>"]
    by (auto simp: Let_def reset_rest_def)
qed


lemma led_displayResult_hash_reset_rest:
  "\<exists>s' ks'. led_displayResult_hash (ks @ [0xE]) s = Returned () s' ks'
      \<and> (ks' = [] \<or> reset_rest (length ks) ks')"
proof -
  define r where "r = fst (led_doOperation (num1 s) (num2 s) (operator s) led_initial)"
  define s3 where "s3 = set_LATD 0
    ((if operator s = 0xD \<and> num2 s = 0 then led_blinkLED 0xFF 5 200 s else s)\<lparr>result := r\<rparr>)"
  have ds: "led_doOperation (num1 s) (num2 s) (operator s) s =
      (r, if operator s = 0xD \<and> num2 s = 0 then led_blinkLED 0xFF 5 200 s else s)"
    unfolding r_def by (subst led_doOperation_eq) simp
  have r3: "result s3 = r"
    by (simp add: s3_def set_LATD_def)
  have hs: "led_displayResult_hash (ks @ [0xE]) s =
      (if r = - 1 \<and> num2 s3 = 0 then led_hold_until_reset In_displayResult_error (ks @ [0xE]) s3
       else and_then (led_displayBinaryWithBlink r (ks @ [0xE]) s3)
          (\<lambda>_ s4 ks4. if result s4 \<ge> 0 then led_hold_until_reset In_displayResult_result ks4 s4
                       else Returned () s4 ks4))"
    unfolding led_displayResult_hash_def ds s3_def [symmetric]
    by (simp only: Let_def prod.case s3_def [symmetric] r3)
  consider (err) "r = - 1 \<and> num2 s3 = 0" | (neg) "\<not> (r = - 1 \<and> num2 s3 = 0)" "r < 0"
    | (pos) "\<not> (r = - 1 \<and> num2 s3 = 0)" "0 \<le> r"
    by linarith
  then show ?thesis
  proof cases
    case err
    then show ?thesis
      unfolding hs using led_hold_until_reset_reset_rest [of In_displayResult_error ks s3]
      by simp
  next
    case neg
    define m where "m = (if int16 (- r) > 0x7F then 0x7F else int16 (- r))"
    obtain s4 ks4 where b: "led_blink_loop m 0 False (ks @ [0xE]) s3 = Returned () s4 ks4"
      "ks4 = [] \<or> reset_rest (length ks) ks4"
      using led_blink_loop_reset_rest [of m 0 False ks s3] by blast
    have "result s4 = r"
      using led_blink_loop_result [of m 0 False "ks @ [0xE]" s3] b(1) r3 by simp
    then show ?thesis
      unfolding hs using neg b
      by (auto simp: led_displayBinaryWithBlink_def Let_def m_def)
  next
    case pos
    define s4 where "s4 = led_displayBinary (if r > 0xFF then 0xFF else r) s3"
    have "result s4 = r"
      by (simp add: s4_def led_displayBinary_def Let_def set_LATD_def r3)
    then show ?thesis
      unfolding hs using pos led_hold_until_reset_reset_rest [of In_displayResult_result ks s4]
      by (auto simp: led_displayBinaryWithBlink_def Let_def s4_def)
  qed
qed

lemma led_displayResult_wait_reset_rest:
  "\<exists>s' ks'. led_displayResult_wait (ks @ [0xE]) s = Returned () s' ks'
      \<and> (ks' = [] \<or> reset_rest (length ks) ks')"
proof (induction ks arbitrary: s)
  case Nil
  show ?case by (simp add: Let_def)
next
  case (Cons k ks)
  show ?case
    using Cons.IH [of "s\<lparr>keyVal := k\<rparr>"]
      led_displayResult_hash_reset_rest [of ks "s\<lparr>keyVal := k\<rparr>"]
    by (auto simp: Let_def reset_rest_def)
qed


lemma reset_restD:
  assumes "reset_rest n ks'"
  obtains p where "ks' = p @ [0xE]" "length p < n"
proof -
  have ne: "ks' \<noteq> []" and l: "last ks' = 0xE" and n: "length ks' \<le> n"
    using assms by (simp_all add: reset_rest_def)
  have "ks' = butlast ks' @ [0xE]"
    using ne l append_butlast_last_id [of ks'] by simp
  moreover have "0 < length ks'"
    using ne by simp
  then have "length (butlast ks') < n"
    using n by (cases ks') simp_all
  ultimately have "ks' = butlast ks' @ [0xE]" "length (butlast ks') < n"
    by simp_all
  then show ?thesis
    using that by blast
qed

lemma led_main_body_reset_rest:
  "\<exists>s' ks'. led_main_body (ks @ [0xE]) s = Returned () s' ks'
      \<and> (ks' = [] \<or> reset_rest (length ks) ks')"
proof -
  obtain v1 s1 ks1 where g1: "led_getNum1 (ks @ [0xE]) (led_resetCalculator s) = Returned v1 s1 ks1"
    and r1: "ks1 = [] \<and> v1 = 0xFF \<or> reset_rest (length ks) ks1"
    unfolding led_getNum1_def using led_getNum1_first_reset by blast
  define s2 where "s2 = set_LATD 0x01 (s1\<lparr>num1 := v1\<rparr>)"
  have n2: "num1 s2 = v1"
    by (simp add: s2_def set_LATD_def)
  show ?thesis
  proof (cases "v1 = 0xFF")
    case True
    then show ?thesis
      using g1 r1 by (auto simp: led_main_body_def Let_def set_LATD_def)
  next
    case False
    then obtain p where p: "ks1 = p @ [0xE]" "length p < length ks"
      using r1 reset_restD by blast
    obtain v2 s3 ks2 where g2: "led_getOperator (p @ [0xE]) s2 = Returned v2 s3 ks2"
      and r2: "ks2 = [] \<and> v2 = 0 \<or> reset_rest (Suc (length p)) ks2"
      using led_getOperator_reset by blast
    define s4 where "s4 = set_LATD 0x04 (s3\<lparr>operator := v2\<rparr>)"
    have n4: "operator s4 = v2"
      by (simp add: s4_def set_LATD_def)
    have b1: "led_main_body (ks @ [0xE]) s =
        (if v2 = 0 then Returned () s4 ks2
         else and_then (led_getNum2 ks2 s4)
           (\<lambda>v s5 ks3.
              let s6 = set_LATD 0x02 (s5\<lparr>num2 := v\<rparr>) in
              if num2 s6 = 0xFF then Returned () s6 ks3
              else led_displayResult ks3 s6))"
      using g1 g2 False p
      by (simp add: led_main_body_def Let_def s2_def s4_def set_LATD_def)
    show ?thesis
    proof (cases "v2 = 0")
      case True
      then show ?thesis
        using b1 r2 p by (auto simp: reset_rest_def)
    next
      case v2: False
      then obtain q where q: "ks2 = q @ [0xE]" "length q < Suc (length p)"
        using r2 reset_restD by blast
      obtain v3 s5 ks3 where g3: "led_getNum2 (q @ [0xE]) s4 = Returned v3 s5 ks3"
        and r3: "ks3 = [] \<and> v3 = 0xFF \<or> reset_rest (length q) ks3"
        unfolding led_getNum2_def using led_getNum2_first_reset by blast
      define s6 where "s6 = set_LATD 0x02 (s5\<lparr>num2 := v3\<rparr>)"
      have n6: "num2 s6 = v3"
        by (simp add: s6_def set_LATD_def)
      have b2: "led_main_body (ks @ [0xE]) s =
          (if v3 = 0xFF then Returned () s6 ks3 else led_displayResult ks3 s6)"
        using b1 v2 g3 q by (simp add: Let_def s6_def set_LATD_def)
      show ?thesis
      proof (cases "v3 = 0xFF")
        case True
        then show ?thesis
          using b2 r3 p q by (auto simp: reset_rest_def)
      next
        case False
        then obtain u where u: "ks3 = u @ [0xE]" "length u < length q"
          using r3 reset_restD by blast
        obtain s7 ks4 where g4: "led_displayResult (u @ [0xE]) s6 = Returned () s7 ks4"
          and r4: "ks4 = [] \<or> reset_rest (length u) ks4"
          unfolding led_displayResult_def using led_displayResult_wait_reset_rest by blast
        show ?thesis
          using b2 False g4 r4 u p q by (auto simp: reset_rest_def)
      qed
    qed
  qed
qed

lemma led_main_body_Nil:
  "led_main_body [] s =
     Waiting In_getNum1_first
       (s\<lparr>num1 := 0, num2 := 0, operator := 0, waitingForHashKey := False,
          validInput := False, num11 := 0, num12 := 0, out := out s @ [LATD 0, LATD 0]\<rparr>)"
  by (simp add: led_main_body_def led_getNum1_def led_resetCalculator_eq set_LATD_def)

lemma led_main_loop_reset:
  "length ks < n \<Longrightarrow>
   \<exists>s'. led_main_loop (Suc n) (ks @ [0xE]) s = Some (In_getNum1_first, s')
     \<and> num1 s' = 0 \<and> num2 s' = 0 \<and> operator s' = 0"
proof (induction n arbitrary: ks s)
  case 0
  then show ?case by simp
next
  case (Suc n)
  obtain s1 ks1 where b: "led_main_body (ks @ [0xE]) s = Returned () s1 ks1"
    and r: "ks1 = [] \<or> reset_rest (length ks) ks1"
    using led_main_body_reset_rest by blast
  show ?case
  proof (cases "ks1 = []")
    case True
    then show ?thesis
      using b by (simp add: led_main_body_Nil)
  next
    case False
    then obtain p where p: "ks1 = p @ [0xE]" "length p < length ks"
      using r reset_restD by blast
    then have "length p < n"
      using Suc.prems by simp
    then show ?thesis
      using Suc.IH [of p s1] b p by simp
  qed
qed

text \<open>
  The binary-LED variant, from the start of \<^verbatim>\<open>main\<close>: whatever keys were pressed, and
  wherever the program was waiting, after the reset key the program waits for the first
  digit of the first operand, with both operands and the operator cleared.
\<close>

lemma led_main_reset:
  "\<exists>s'. led_main (ks @ [0xE]) = Some (In_getNum1_first, s')
     \<and> num1 s' = 0 \<and> num2 s' = 0 \<and> operator s' = 0"
  unfolding led_main_def using led_main_loop_reset [of ks "Suc (length ks)"] by simp

text \<open>
  The 7-segment variant does not have this property: after the keys 5, A and the reset
  key it waits for \<open>#\<close> in \<^verbatim>\<open>displayResult\<close>, with the first operand still 5.
\<close>

lemma seg_main_not_reset:
  "map_option fst (seg_main [5, 0xA, 0xE]) = Some In_displayResult_confirm
   \<and> map_option (\<lambda>p. num1 (snd p)) (seg_main [5, 0xA, 0xE]) = Some 5"
  by (simp add: seg_main_def seg_initialize_def seg_defs int16_def)

end
